theory Spec2Isabelle
  imports Main "HOL-Library.Word"
begin

unbundle bit_operations_syntax

section \<open>The tiny shell \<open>tsh.c\<close>: data model\<close>

text \<open>
  The shell is one process whose main line (\<open>eval\<close>) and three signal handlers share the
  job list. Everything the C code does through the operating system is made explicit:
  the state record holds the job list, the signal mask, \<open>errno\<close> and a trace of every
  call the code makes, each entry paired with the signal mask in force when the call was
  made. The remaining fields describe the environment (what \<open>fork\<close>, \<open>open\<close>,
  \<open>execve\<close>, \<open>kill\<close> and \<open>waitpid\<close> answer).
\<close>

type_synonym sigset = "64 word"
type_synonym mode_t = "32 word"

datatype job_state = UNDEF | FG | BG | ST

record job =
  jpid :: int
  jstate :: job_state
  jcmdline :: string

datatype parseline_return = PARSELINE_FG | PARSELINE_BG | PARSELINE_EMPTY | PARSELINE_ERROR

datatype builtin_state = BUILTIN_NONE | BUILTIN_QUIT | BUILTIN_JOBS | BUILTIN_BG | BUILTIN_FG

text \<open>\<open>struct cmdline_tokens\<close>; \<open>argc\<close> is the length of \<open>argv\<close>, a null pointer is \<open>None\<close>.\<close>

record cmdline_tokens =
  argv :: "string list"
  infile :: "string option"
  outfile :: "string option"
  builtin :: builtin_state

definition argc :: "cmdline_tokens \<Rightarrow> nat" where
  "argc tok = length (argv tok)"

text \<open>The status word that \<open>waitpid\<close> fills in, read through the \<open>WIF...\<close> macros.\<close>

datatype wstatus = WExited int | WSignaled int | WStopped int | WContinued

fun WIFSTOPPED :: "wstatus \<Rightarrow> bool" where
  "WIFSTOPPED (WStopped n) = True"
| "WIFSTOPPED _ = False"

fun WIFSIGNALED :: "wstatus \<Rightarrow> bool" where
  "WIFSIGNALED (WSignaled n) = True"
| "WIFSIGNALED _ = False"

fun WIFCONTINUED :: "wstatus \<Rightarrow> bool" where
  "WIFCONTINUED WContinued = True"
| "WIFCONTINUED _ = False"

fun WSTOPSIG :: "wstatus \<Rightarrow> int" where
  "WSTOPSIG (WStopped n) = n"
| "WSTOPSIG _ = 0"

fun WTERMSIG :: "wstatus \<Rightarrow> int" where
  "WTERMSIG (WSignaled n) = n"
| "WTERMSIG _ = 0"

datatype how = SIG_BLOCK | SIG_SETMASK

text \<open>One entry of the trace: the call made.\<close>

datatype op =
    Sigprocmask how sigset
  | Sigsuspend sigset
  | Fork int
  | Open string mode_t mode_t
  | Dup2 string int
  | Close string
  | Setpgid int int
  | Execve string "string list"
  | Exit int
  | Kill int int
  | Waitpid "32 word" int "wstatus option"
  | Print string
  | AddJob int job_state string
  | DeleteJob int
  | JobSetState int job_state
  | JobFromPid int
  | JobGetPid int
  | JobGetCmdline int
  | JobExists int
  | FgJob
  | ListJobs "string option" "job list"
  | Handler int

text \<open>
  A signal that arrives while the shell is suspended: its number, and the child status
  changes that have become pending by the time its handler runs.
\<close>

type_synonym arrival = "int \<times> (int \<times> wstatus) list"

text \<open>
  The state of the process. \<open>trace\<close> lists the calls made so far, each with the signal
  mask in force when it was made. The environment: \<open>pending\<close> are the child status
  changes not yet reaped, oldest first; \<open>fork_ret\<close> is what \<open>fork\<close> returns in this process
  (0 in the child); \<open>open_errno name flags\<close>, \<open>exec_errno name\<close> and \<open>kill_errno target\<close>
  are the error numbers with which these calls fail, 0 for success; \<open>wait_errno\<close> is the
  error number of a \<open>waitpid\<close> that finds nothing to report (0: it returns 0);
  \<open>write_ok\<close> is whether writing the job listing succeeds.
\<close>

record shell =
  jobs :: "job list"
  mask :: sigset
  errno :: int
  trace :: "(op \<times> sigset) list"
  pending :: "(int \<times> wstatus) list"
  fork_ret :: int
  open_errno :: "string \<Rightarrow> mode_t \<Rightarrow> int"
  exec_errno :: "string \<Rightarrow> int"
  kill_errno :: "int \<Rightarrow> int"
  wait_errno :: int
  write_ok :: bool

text \<open>
  How a call of \<open>eval\<close> ends: it returns to the read/eval loop, the process leaves through
  \<open>_exit\<close>, \<open>execve\<close> replaces the program image, or the process is still suspended when
  the modelled arrivals are used up.
\<close>

datatype outcome = Returned shell | Exited int shell | Replaced shell | Suspended shell

subsection \<open>Constants of the system headers\<close>

definition SIGINT :: int where "SIGINT = 2"
definition SIGCHLD :: int where "SIGCHLD = 17"
definition SIGCONT :: int where "SIGCONT = 18"
definition SIGTSTP :: int where "SIGTSTP = 20"

definition ENOENT :: int where "ENOENT = 2"
definition EINTR :: int where "EINTR = 4"
definition EACCES :: int where "EACCES = 13"

definition WNOHANG :: "32 word" where "WNOHANG = 1"
definition WUNTRACED :: "32 word" where "WUNTRACED = 2"
definition WCONTINUED :: "32 word" where "WCONTINUED = 8"

definition O_RDONLY :: mode_t where "O_RDONLY = 0"
definition O_WRONLY :: mode_t where "O_WRONLY = 1"
definition O_CREAT :: mode_t where "O_CREAT = 64"
definition O_TRUNC :: mode_t where "O_TRUNC = 512"

definition S_IRUSR :: mode_t where "S_IRUSR = 256"
definition S_IWUSR :: mode_t where "S_IWUSR = 128"
definition S_IXUSR :: mode_t where "S_IXUSR = 64"
definition S_IRGRP :: mode_t where "S_IRGRP = 32"
definition S_IWGRP :: mode_t where "S_IWGRP = 16"
definition S_IXGRP :: mode_t where "S_IXGRP = 8"
definition S_IROTH :: mode_t where "S_IROTH = 4"
definition S_IWOTH :: mode_t where "S_IWOTH = 2"
definition S_IXOTH :: mode_t where "S_IXOTH = 1"

definition STDIN_FILENO :: int where "STDIN_FILENO = 0"
definition STDOUT_FILENO :: int where "STDOUT_FILENO = 1"

text \<open>\<open>#define MODE S_IRUSR | S_IWUSR | S_IRGRP | S_IROTH\<close>\<close>

definition MODE :: mode_t where
  "MODE = S_IRUSR OR S_IWUSR OR S_IRGRP OR S_IROTH"

text \<open>\<open>sigfillset(&mask_all)\<close>: every signal is a member.\<close>

definition mask_all :: sigset where
  "mask_all = - 1"

subsection \<open>The job list\<close>

text \<open>
  \<open>tsh_helper.c\<close>, which holds the job list and its operations, is not among the sources:
  every definition of this subsection is written from the spec. The list has a fixed
  number of slots; slot \<open>i\<close> (from 0) holds the job with id \<open>i + 1\<close>, and state \<open>UNDEF\<close>
  marks an empty slot. An absent job id or process id is reported as 0.
\<close>

text \<open>Modelled from the spec: the capacity of the table (\<open>MAXJOBS\<close> of \<open>tsh_helper.h\<close>),
  "bounded, e.g. 16".\<close>

definition MAXJOBS :: nat where
  "MAXJOBS = 16"

text \<open>Modelled from the spec: an empty slot has state \<open>Undefined\<close>.\<close>

definition empty_job :: job where
  "empty_job = \<lparr>jpid = 0, jstate = UNDEF, jcmdline = []\<rparr>"

text \<open>Modelled from the spec: \<open>init_job_list\<close>, the table with every slot empty.\<close>

definition init_job_list :: "job list" where
  "init_job_list = replicate MAXJOBS empty_job"

text \<open>Modelled from the spec: \<open>exists(id)\<close>.\<close>

definition job_exists :: "int \<Rightarrow> job list \<Rightarrow> bool" where
  "job_exists jid t = (1 \<le> jid \<and> nat jid \<le> length t \<and> jstate (t ! (nat jid - 1)) \<noteq> UNDEF)"

text \<open>Modelled from the spec: the lowest free slot, if there is one.\<close>

fun free_slot :: "job list \<Rightarrow> nat option" where
  "free_slot [] = None"
| "free_slot (j # t) =
     (if jstate j = UNDEF then Some 0
      else (case free_slot t of None \<Rightarrow> None | Some i \<Rightarrow> Some (Suc i)))"

text \<open>Modelled from the spec: \<open>add\<close> allocates the lowest free slot and fails, changing
  nothing, when the table is full. The result is whether the job was added.\<close>

definition add_job :: "int \<Rightarrow> job_state \<Rightarrow> string \<Rightarrow> job list \<Rightarrow> bool \<times> job list" where
  "add_job p st cmd t =
     (case free_slot t of
        None \<Rightarrow> (False, t)
      | Some i \<Rightarrow> (True, t[i := \<lparr>jpid = p, jstate = st, jcmdline = cmd\<rparr>]))"

text \<open>Modelled from the spec: \<open>remove\<close> frees the slot and is a no-op if the job is not
  present.\<close>

definition delete_job :: "int \<Rightarrow> job list \<Rightarrow> job list" where
  "delete_job jid t = (if job_exists jid t then t[nat jid - 1 := empty_job] else t)"

text \<open>Modelled from the spec: \<open>setState\<close> is a no-op if the id is not a live job.\<close>

definition job_set_state :: "int \<Rightarrow> job_state \<Rightarrow> job list \<Rightarrow> job list" where
  "job_set_state jid st t =
     (if job_exists jid t then t[nat jid - 1 := (t ! (nat jid - 1))\<lparr>jstate := st\<rparr>] else t)"

text \<open>Modelled from the spec: \<open>lookupByProcessId\<close>, the id of the first live job with
  that process id, or 0.\<close>

fun job_from_pid :: "int \<Rightarrow> job list \<Rightarrow> int" where
  "job_from_pid p [] = 0"
| "job_from_pid p (j # t) =
     (if jstate j \<noteq> UNDEF \<and> jpid j = p then 1
      else (let r = job_from_pid p t in if r = 0 then 0 else r + 1))"

text \<open>Modelled from the spec: \<open>lookupByJobId\<close>, the process id of a live job, or 0.\<close>

definition job_get_pid :: "int \<Rightarrow> job list \<Rightarrow> int" where
  "job_get_pid jid t = (if job_exists jid t then jpid (t ! (nat jid - 1)) else 0)"

text \<open>Modelled from the spec: the \<open>commandLine\<close> retained for a live job.\<close>

definition job_get_cmdline :: "int \<Rightarrow> job list \<Rightarrow> string" where
  "job_get_cmdline jid t = (if job_exists jid t then jcmdline (t ! (nat jid - 1)) else [])"

text \<open>Modelled from the spec: \<open>foregroundJobId\<close>, the id of the first job in state
  \<open>FG\<close>, or 0.\<close>

fun fg_job :: "job list \<Rightarrow> int" where
  "fg_job [] = 0"
| "fg_job (j # t) =
     (if jstate j = FG then 1
      else (let r = fg_job t in if r = 0 then 0 else r + 1))"

subsection \<open>Formatting\<close>

text \<open>The \<open>%d\<close> conversion of \<open>sio_printf\<close>.\<close>

definition digit_char :: "nat \<Rightarrow> char" where
  "digit_char d = char_of (48 + d)"

fun show_nat :: "nat \<Rightarrow> string" where
  "show_nat n = (if n < 10 then [digit_char n] else show_nat (n div 10) @ [digit_char (n mod 10)])"

declare show_nat.simps [simp del]

definition show_int :: "int \<Rightarrow> string" where
  "show_int i = (if i < 0 then CHR ''-'' # show_nat (nat (- i)) else show_nat (nat i))"

definition nl :: string where
  "nl = [CHR 0x0A]"

subsection \<open>System calls\<close>

definition emit :: "op \<Rightarrow> shell \<Rightarrow> shell" where
  "emit e s = s\<lparr>trace := trace s @ [(e, mask s)]\<rparr>"

text \<open>\<open>sigprocmask(how, &set, &old)\<close>; the caller reads the old mask off the state before
  the call.\<close>

definition sigprocmask :: "how \<Rightarrow> sigset \<Rightarrow> shell \<Rightarrow> shell" where
  "sigprocmask h m s =
     (emit (Sigprocmask h m) s)
       \<lparr>mask := (case h of SIG_BLOCK \<Rightarrow> mask s OR m | SIG_SETMASK \<Rightarrow> m)\<rparr>"

text \<open>Modelled from the spec: \<open>sio_printf\<close> of \<open>csapp.c\<close> (not among the sources), the
  reentrant-safe output, as the printing of the formatted text.\<close>

definition sio_printf :: "string \<Rightarrow> shell \<Rightarrow> shell" where
  "sio_printf text s = emit (Print text) s"

text \<open>\<open>kill\<close> sets \<open>errno\<close> when the environment makes it fail.\<close>

definition kill :: "int \<Rightarrow> int \<Rightarrow> shell \<Rightarrow> shell" where
  "kill target sig s =
     (let s1 = emit (Kill target sig) s
      in if kill_errno s target = 0 then s1 else s1\<lparr>errno := kill_errno s target\<rparr>)"

text \<open>
  \<open>waitpid(-1, &status, options)\<close>. A stopped child is reported only under \<open>WUNTRACED\<close>,
  a continued one only under \<open>WCONTINUED\<close>; exits and terminations always. The first
  pending change that can be reported is taken off the queue. With nothing to report the
  call returns at once under \<open>WNOHANG\<close> (0, or -1 with \<open>errno\<close> set when the environment
  says so) and otherwise blocks, which is the value \<open>None\<close>.
\<close>

datatype wait_result = Reaped int wstatus | NoChange | WaitError

fun reportable :: "32 word \<Rightarrow> wstatus \<Rightarrow> bool" where
  "reportable options (WStopped n) = (options AND WUNTRACED \<noteq> 0)"
| "reportable options WContinued = (options AND WCONTINUED \<noteq> 0)"
| "reportable options _ = True"

fun take_first :: "('a \<Rightarrow> bool) \<Rightarrow> 'a list \<Rightarrow> ('a \<times> 'a list) option" where
  "take_first P [] = None"
| "take_first P (x # xs) =
     (if P x then Some (x, xs)
      else (case take_first P xs of None \<Rightarrow> None | Some (y, ys) \<Rightarrow> Some (y, x # ys)))"

definition waitpid :: "32 word \<Rightarrow> shell \<Rightarrow> (wait_result \<times> shell) option" where
  "waitpid options s =
     (case take_first (\<lambda>c. reportable options (snd c)) (pending s) of
        Some (c, rest) \<Rightarrow>
          Some (Reaped (fst c) (snd c),
                (emit (Waitpid options (fst c) (Some (snd c))) s)\<lparr>pending := rest\<rparr>)
      | None \<Rightarrow>
          if options AND WNOHANG \<noteq> 0 then
            (if wait_errno s = 0 then Some (NoChange, emit (Waitpid options 0 None) s)
             else Some (WaitError, (emit (Waitpid options (- 1) None) s)\<lparr>errno := wait_errno s\<rparr>))
          else None)"

subsection \<open>Job list calls on the state\<close>

definition do_add_job :: "int \<Rightarrow> job_state \<Rightarrow> string \<Rightarrow> shell \<Rightarrow> shell" where
  "do_add_job p st cmd s =
     (emit (AddJob p st cmd) s)\<lparr>jobs := snd (add_job p st cmd (jobs s))\<rparr>"

definition do_delete_job :: "int \<Rightarrow> shell \<Rightarrow> shell" where
  "do_delete_job jid s = (emit (DeleteJob jid) s)\<lparr>jobs := delete_job jid (jobs s)\<rparr>"

definition do_job_set_state :: "int \<Rightarrow> job_state \<Rightarrow> shell \<Rightarrow> shell" where
  "do_job_set_state jid st s =
     (emit (JobSetState jid st) s)\<lparr>jobs := job_set_state jid st (jobs s)\<rparr>"

section \<open>Signal handlers\<close>

text \<open>The body of the \<open>while\<close> loop of \<open>sigchld_handler\<close>, for one reaped child.\<close>

definition reap_one :: "int \<Rightarrow> wstatus \<Rightarrow> shell \<Rightarrow> shell" where
  "reap_one pid status s =
     (let prev_all = mask s;
          s1 = sigprocmask SIG_BLOCK mask_all s;
          jid = job_from_pid pid (jobs s1);
          s2 = emit (JobFromPid pid) s1;
          s3 = (if WIFSTOPPED status then
                  sio_printf (''Job ['' @ show_int jid @ ''] ('' @ show_int pid
                      @ '') stopped by signal '' @ show_int (WSTOPSIG status) @ nl)
                    (do_job_set_state jid ST s2)
                else if WIFSIGNALED status then
                  do_delete_job jid
                    (sio_printf (''Job ['' @ show_int jid @ ''] ('' @ show_int pid
                      @ '') terminated by signal '' @ show_int (WTERMSIG status) @ nl) s2)
                else if WIFCONTINUED status then do_job_set_state jid FG s2
                else do_delete_job jid s2)
      in sigprocmask SIG_SETMASK prev_all s3)"

lemma pending_reap_one: "pending (reap_one pid status s) = pending s"
  by (simp add: reap_one_def Let_def sigprocmask_def emit_def sio_printf_def
      do_job_set_state_def do_delete_job_def)

lemma take_first_length: "take_first P xs = Some (y, ys) \<Longrightarrow> length ys < length xs"
  by (induction xs arbitrary: y ys) (auto split: if_splits option.splits)

lemma waitpid_reaped_pending:
  "waitpid options s = Some (Reaped p st, s1) \<Longrightarrow> length (pending s1) < length (pending s)"
  by (auto simp: waitpid_def emit_def split: option.splits if_splits dest: take_first_length)

text \<open>\<open>while ((pid = waitpid(-1, &status, WNOHANG | WUNTRACED)) > 0) { ... }\<close>\<close>

function reap_loop :: "shell \<Rightarrow> shell option" where
  "reap_loop s =
     (case waitpid (WNOHANG OR WUNTRACED) s of
        None \<Rightarrow> None
      | Some (Reaped pid status, s1) \<Rightarrow>
          if pid > 0 then reap_loop (reap_one pid status s1) else Some s1
      | Some (NoChange, s1) \<Rightarrow> Some s1
      | Some (WaitError, s1) \<Rightarrow> Some s1)"
  by pat_completeness auto
termination
  by (relation "measure (\<lambda>s. length (pending s))")
     (auto simp: pending_reap_one dest: waitpid_reaped_pending)

declare reap_loop.simps [simp del]

definition sigchld_handler :: "shell \<Rightarrow> shell option" where
  "sigchld_handler s =
     (let olderrno = errno s
      in case reap_loop s of
           None \<Rightarrow> None
         | Some s1 \<Rightarrow> Some (s1\<lparr>errno := olderrno\<rparr>))"

definition sigint_handler :: "shell \<Rightarrow> shell" where
  "sigint_handler s =
     (let olderrno = errno s;
          prev_all = mask s;
          s1 = sigprocmask SIG_BLOCK mask_all s;
          jid = fg_job (jobs s1);
          s2 = emit FgJob s1;
          s3 = (if jid \<noteq> 0 then
                  (let pid = job_get_pid jid (jobs s2);
                       s2a = emit (JobGetPid jid) s2
                   in kill (- pid) SIGINT s2a)
                else s2);
          s4 = sigprocmask SIG_SETMASK prev_all s3
      in s4\<lparr>errno := olderrno\<rparr>)"

definition sigtstp_handler :: "shell \<Rightarrow> shell" where
  "sigtstp_handler s =
     (let olderrno = errno s;
          prev_all = mask s;
          s1 = sigprocmask SIG_BLOCK mask_all s;
          jid = fg_job (jobs s1);
          s2 = emit FgJob s1;
          s3 = (if jid \<noteq> 0 then
                  (let pid = job_get_pid jid (jobs s2);
                       s2a = emit (JobGetPid jid) s2
                   in kill (- pid) SIGTSTP s2a)
                else s2);
          s4 = sigprocmask SIG_SETMASK prev_all s3
      in s4\<lparr>errno := olderrno\<rparr>)"

subsection \<open>Signal delivery while suspended\<close>

definition sig_bit :: "int \<Rightarrow> sigset" where
  "sig_bit sig = push_bit (nat (sig - 1)) 1"

text \<open>
  The kernel runs the handler installed in \<open>main\<close> for the arriving signal, with that
  signal added to the mask for the duration of the handler. Signals whose handler is not
  in this file (\<open>SIGQUIT\<close>, whose handler is in \<open>tsh_helper.c\<close>, and the ignored ones) leave
  the state alone.
\<close>

definition deliver :: "arrival \<Rightarrow> shell \<Rightarrow> shell option" where
  "deliver a s =
     (let before = mask s;
          s1 = (emit (Handler (fst a)) s)
                 \<lparr>mask := mask s OR sig_bit (fst a), pending := pending s @ snd a\<rparr>;
          r = (if fst a = SIGCHLD then sigchld_handler s1
               else if fst a = SIGINT then Some (sigint_handler s1)
               else if fst a = SIGTSTP then Some (sigtstp_handler s1)
               else Some s1)
      in case r of None \<Rightarrow> None | Some s2 \<Rightarrow> Some (s2\<lparr>mask := before\<rparr>))"

text \<open>
  \<open>sigsuspend(&m)\<close>: install \<open>m\<close>, sleep until a signal is delivered and its handler has
  run, restore the mask of the caller and return with \<open>errno = EINTR\<close>.
\<close>

definition sigsuspend :: "sigset \<Rightarrow> arrival \<Rightarrow> shell \<Rightarrow> shell option" where
  "sigsuspend m a s =
     (let old = mask s;
          s1 = (emit (Sigsuspend m) s)\<lparr>mask := m\<rparr>
      in case deliver a s1 of
           None \<Rightarrow> None
         | Some s2 \<Rightarrow> Some (s2\<lparr>mask := old, errno := EINTR\<rparr>))"

section \<open>The evaluator\<close>

subsection \<open>Library functions used by \<open>eval\<close>\<close>

definition isdigit :: "char \<Rightarrow> bool" where
  "isdigit c = (48 \<le> (of_char c :: nat) \<and> (of_char c :: nat) \<le> 57)"

definition isspace :: "char \<Rightarrow> bool" where
  "isspace c = ((of_char c :: nat) = 32 \<or> (9 \<le> (of_char c :: nat) \<and> (of_char c :: nat) \<le> 13))"

definition digit_val :: "char \<Rightarrow> int" where
  "digit_val c = int (of_char c) - 48"

definition decimal :: "string \<Rightarrow> int" where
  "decimal ds = foldl (\<lambda>a c. a * 10 + digit_val c) 0 ds"

definition LONG_MAX :: int where "LONG_MAX = 2 ^ 63 - 1"
definition LONG_MIN :: int where "LONG_MIN = - (2 ^ 63)"

text \<open>\<open>strtol(str, NULL, 10)\<close>: white space, an optional sign, then the longest run of
  digits; 0 if there is none; clamped to the range of \<open>long\<close>.\<close>

definition strtol :: "string \<Rightarrow> int" where
  "strtol str =
     (let r = dropWhile isspace str;
          neg = (case r of [] \<Rightarrow> False | c # cs \<Rightarrow> c = CHR ''-'');
          r1 = (case r of [] \<Rightarrow> [] | c # cs \<Rightarrow> if c = CHR ''-'' \<or> c = CHR ''+'' then cs else r);
          v = decimal (takeWhile isdigit r1)
      in if neg then max LONG_MIN (- v) else min LONG_MAX v)"

text \<open>The conversion of the \<open>long\<close> to the 32-bit \<open>pid_t\<close> or \<open>jid_t\<close> it is assigned to.\<close>

definition to_int :: "int \<Rightarrow> int" where
  "to_int v = sint (word_of_int v :: 32 word)"

text \<open>\<open>open(name, flags, mode)\<close>: whether it gave a descriptor; \<open>errno\<close> is set when
  it did not.\<close>

definition sys_open :: "string \<Rightarrow> mode_t \<Rightarrow> mode_t \<Rightarrow> shell \<Rightarrow> bool \<times> shell" where
  "sys_open name flags md s =
     (let s1 = emit (Open name flags md) s
      in if open_errno s name flags = 0 then (True, s1)
         else (False, s1\<lparr>errno := open_errno s name flags\<rparr>))"

text \<open>The two-way test on \<open>errno\<close> that follows every failed \<open>open\<close> and \<open>execve\<close>.\<close>

definition report_errno :: "string \<Rightarrow> shell \<Rightarrow> shell" where
  "report_errno name s =
     (if errno s = 2 then sio_printf (name @ '': No such file or directory'' @ nl) s
      else if errno s = 13 then sio_printf (name @ '': Permission denied'' @ nl) s
      else s)"

subsection \<open>The child after \<open>fork\<close>\<close>

definition child :: "cmdline_tokens \<Rightarrow> sigset \<Rightarrow> shell \<Rightarrow> outcome" where
  "child tok prev_all s =
     (let (in_ok, s1) =
            (case infile tok of
               None \<Rightarrow> (True, s)
             | Some f \<Rightarrow>
                 (let (ok, sa) = sys_open f O_RDONLY 0 s
                  in if ok then (True, emit (Close f) (emit (Dup2 f STDIN_FILENO) sa))
                     else (False, emit (Exit 0) (report_errno f sa))))
      in if \<not> in_ok then Exited 0 s1
         else
           (let (out_ok, s2) =
                  (case outfile tok of
                     None \<Rightarrow> (True, s1)
                   | Some f \<Rightarrow>
                       (let (ok, sa) = sys_open f (O_CREAT OR O_TRUNC OR O_WRONLY) MODE s1
                        in if ok then (True, emit (Close f) (emit (Dup2 f STDOUT_FILENO) sa))
                           else (False, emit (Exit 0) (report_errno f sa))))
            in if \<not> out_ok then Exited 0 s2
               else
                 (let s3 = sigprocmask SIG_SETMASK prev_all s2;
                      s4 = emit (Setpgid 0 0) s3;
                      prog = (case argv tok of [] \<Rightarrow> [] | a # as \<Rightarrow> a);
                      s5 = emit (Execve prog (argv tok)) s4
                  in if exec_errno s5 prog = 0 then Replaced s5
                     else Exited 0
                            (emit (Exit 0)
                              (report_errno prog (s5\<lparr>errno := exec_errno s5 prog\<rparr>))))))"

subsection \<open>Waiting for the foreground job\<close>

text \<open>The loop condition \<open>(fg_job() != 0) && (pid == job_get_pid(fg_job()))\<close>.\<close>

definition fg_cond :: "int \<Rightarrow> shell \<Rightarrow> bool \<times> shell" where
  "fg_cond pid s =
     (let j = fg_job (jobs s);
          s1 = emit FgJob s
      in if j \<noteq> 0 then
           (let j2 = fg_job (jobs s1);
                s2 = emit FgJob s1;
                p = job_get_pid j2 (jobs s2);
                s3 = emit (JobGetPid j2) s2
            in (pid = p, s3))
         else (False, s1))"

text \<open>
  \<open>while (cond) sigsuspend(&prev_all);\<close> Each turn of the loop uses up one arrival. When
  none is left the process stays suspended.
\<close>

fun wait_fg :: "int \<Rightarrow> sigset \<Rightarrow> arrival list \<Rightarrow> shell \<Rightarrow> outcome" where
  "wait_fg pid prev_all [] s =
     (if fst (fg_cond pid s) then Suspended (emit (Sigsuspend prev_all) (snd (fg_cond pid s)))
      else Returned (snd (fg_cond pid s)))"
| "wait_fg pid prev_all (a # as) s =
     (if fst (fg_cond pid s) then
        (case sigsuspend prev_all a (snd (fg_cond pid s)) of
           None \<Rightarrow> Suspended (snd (fg_cond pid s))
         | Some s1 \<Rightarrow> wait_fg pid prev_all as s1)
      else Returned (snd (fg_cond pid s)))"

text \<open>The statement after the loop: \<open>sigprocmask(SIG_SETMASK, &prev_all, NULL)\<close>.\<close>

definition wait_then_restore :: "int \<Rightarrow> sigset \<Rightarrow> arrival list \<Rightarrow> shell \<Rightarrow> outcome" where
  "wait_then_restore pid prev_all as s =
     (case wait_fg pid prev_all as s of
        Returned s1 \<Rightarrow> Returned (sigprocmask SIG_SETMASK prev_all s1)
      | other \<Rightarrow> other)"

subsection \<open>External commands\<close>

definition parent :: "parseline_return \<Rightarrow> string \<Rightarrow> int \<Rightarrow> sigset \<Rightarrow> arrival list \<Rightarrow> shell
    \<Rightarrow> outcome" where
  "parent parse_result cmdline pid prev_all as s =
     (if parse_result = PARSELINE_FG then
        wait_then_restore pid prev_all as (do_add_job pid FG cmdline s)
      else if parse_result = PARSELINE_BG then
        (let s1 = sigprocmask SIG_BLOCK mask_all s;
             s2 = do_add_job pid BG cmdline s1;
             jid = job_from_pid pid (jobs s2);
             s3 = emit (JobFromPid pid) s2;
             s4 = sigprocmask SIG_SETMASK prev_all s3
         in Returned (sio_printf (''['' @ show_int jid @ ''] ('' @ show_int pid @ '') ''
                         @ cmdline @ nl) s4))
      else Returned s)"

definition external :: "parseline_return \<Rightarrow> cmdline_tokens \<Rightarrow> string \<Rightarrow> arrival list \<Rightarrow> shell
    \<Rightarrow> outcome" where
  "external parse_result tok cmdline as s =
     (let prev_all = mask s;
          s1 = sigprocmask SIG_BLOCK mask_all s;
          pid = fork_ret s1;
          s2 = emit (Fork pid) s1
      in if pid = 0 then child tok prev_all s2
         else parent parse_result cmdline pid prev_all as s2)"

subsection \<open>Built-in commands\<close>

text \<open>
  The \<open>jobs\<close> built-in. Modelled from the spec: \<open>list_jobs(fd)\<close> of \<open>tsh_helper.c\<close>
  writes the listing of the job list to the descriptor (standard output is \<open>None\<close>, an
  opened file is its name) and returns whether the write succeeded, which the environment
  decides (\<open>write_ok\<close>).
\<close>

definition builtin_jobs :: "cmdline_tokens \<Rightarrow> shell \<Rightarrow> shell" where
  "builtin_jobs tok s =
     (let prev_all = mask s;
          s1 = sigprocmask SIG_BLOCK mask_all s;
          s2 = (case outfile tok of
                  Some f \<Rightarrow>
                    (let (ok, sa) = sys_open f (O_CREAT OR O_TRUNC OR O_WRONLY) MODE s1
                     in if ok then
                          (let sb = emit (ListJobs (Some f) (jobs sa)) sa;
                               sc = (if \<not> write_ok sb
                                     then sio_printf (''Fails to write into job list.'' @ nl) sb
                                     else sb)
                           in emit (Close f) sc)
                        else report_errno f sa)
                | None \<Rightarrow>
                    (let sb = emit (ListJobs None (jobs s1)) s1
                     in if \<not> write_ok sb
                        then sio_printf (''Fails to write into job list.'' @ nl) sb
                        else sb))
      in sigprocmask SIG_SETMASK prev_all s2)"

text \<open>
  The argument handling that \<open>bg\<close> and \<open>fg\<close> have in common (the two blocks of the source
  differ in the command name printed): either the early return, or the job id and process
  id found. \<open>argv[1]\<close> of an empty argument is the terminating 0 byte.
\<close>

definition first_char :: "string \<Rightarrow> char" where
  "first_char arg = (case arg of [] \<Rightarrow> CHR 0x00 | c # cs \<Rightarrow> c)"

definition no_such_job :: "string \<Rightarrow> sigset \<Rightarrow> shell \<Rightarrow> shell" where
  "no_such_job arg prev_all s =
     sigprocmask SIG_SETMASK prev_all (sio_printf (arg @ '': No such job'' @ nl) s)"

definition resolve :: "string \<Rightarrow> cmdline_tokens \<Rightarrow> sigset \<Rightarrow> shell \<Rightarrow> shell + (int \<times> int \<times> shell)"
  where
  "resolve name tok prev_all s =
     (if argc tok = 1 then
        Inl (sigprocmask SIG_SETMASK prev_all
               (sio_printf (name @ '' command requires PID or %jobid argument'' @ nl) s))
      else
        (let arg = (if 1 < argc tok then argv tok ! 1 else [])
         in if first_char arg \<noteq> CHR ''%'' \<and> \<not> isdigit (first_char arg) then
              Inl (sigprocmask SIG_SETMASK prev_all
                     (sio_printf (name @ '': argument must be a PID or %jobid'' @ nl) s))
            else if first_char arg = CHR ''%'' then
              (let jid = to_int (strtol (tl arg));
                   s1 = emit (JobExists jid) s
               in if \<not> job_exists jid (jobs s1) then Inl (no_such_job arg prev_all s1)
                  else Inr (jid, job_get_pid jid (jobs s1), emit (JobGetPid jid) s1))
            else
              (let pid = to_int (strtol arg);
                   jid = job_from_pid pid (jobs s);
                   s1 = emit (JobExists jid) (emit (JobFromPid pid) s)
               in if \<not> job_exists jid (jobs s1) then Inl (no_such_job arg prev_all s1)
                  else Inr (jid, pid, s1))))"

definition builtin_bg :: "cmdline_tokens \<Rightarrow> shell \<Rightarrow> shell" where
  "builtin_bg tok s =
     (let prev_all = mask s;
          s1 = sigprocmask SIG_BLOCK mask_all s
      in case resolve ''bg'' tok prev_all s1 of
           Inl s2 \<Rightarrow> s2
         | Inr (jid, pid, s2) \<Rightarrow>
             (let s3 = sio_printf (''['' @ show_int jid @ ''] ('' @ show_int pid @ '') ''
                          @ job_get_cmdline jid (jobs s2) @ nl) (emit (JobGetCmdline jid) s2);
                  s4 = kill (- pid) SIGCONT s3;
                  s5 = do_job_set_state jid BG s4
              in sigprocmask SIG_SETMASK prev_all s5))"

definition builtin_fg :: "cmdline_tokens \<Rightarrow> arrival list \<Rightarrow> shell \<Rightarrow> outcome" where
  "builtin_fg tok as s =
     (let prev_all = mask s;
          s1 = sigprocmask SIG_BLOCK mask_all s
      in case resolve ''fg'' tok prev_all s1 of
           Inl s2 \<Rightarrow> Returned s2
         | Inr (jid, pid, s2) \<Rightarrow>
             (let s3 = kill (- pid) SIGCONT s2;
                  s4 = do_job_set_state jid FG s3
              in wait_then_restore pid prev_all as s4))"

subsection \<open>\<open>eval\<close>\<close>

text \<open>
  \<open>parseline\<close> is not among the sources: its result and the tokens it fills in are
  arguments. \<open>as\<close> are the signals that arrive while this call is suspended.
\<close>

definition eval :: "parseline_return \<Rightarrow> cmdline_tokens \<Rightarrow> string \<Rightarrow> arrival list \<Rightarrow> shell
    \<Rightarrow> outcome" where
  "eval parse_result tok cmdline as s =
     (if parse_result = PARSELINE_ERROR \<or> parse_result = PARSELINE_EMPTY then Returned s
      else if builtin tok = BUILTIN_NONE then external parse_result tok cmdline as s
      else if builtin tok = BUILTIN_QUIT then Exited 0 (emit (Exit 0) s)
      else if builtin tok = BUILTIN_JOBS then Returned (builtin_jobs tok s)
      else if builtin tok = BUILTIN_BG then Returned (builtin_bg tok s)
      else builtin_fg tok as s)"

section \<open>Observing a run\<close>

text \<open>The state in which a call of \<open>eval\<close> ended, and the calls a piece of code added to
  the trace.\<close>

fun state_of :: "outcome \<Rightarrow> shell" where
  "state_of (Returned s) = s"
| "state_of (Exited n s) = s"
| "state_of (Replaced s) = s"
| "state_of (Suspended s) = s"

definition new_events :: "shell \<Rightarrow> shell \<Rightarrow> (op \<times> sigset) list" where
  "new_events s s' = drop (length (trace s)) (trace s')"

text \<open>The signals sent, as (target, signal), and the lines printed, in order.\<close>

fun kill_of :: "op \<Rightarrow> (int \<times> int) list" where
  "kill_of (Kill target sig) = [(target, sig)]"
| "kill_of _ = []"

definition kills :: "(op \<times> sigset) list \<Rightarrow> (int \<times> int) list" where
  "kills tr = concat (map (\<lambda>e. kill_of (fst e)) tr)"

fun print_of :: "op \<Rightarrow> string list" where
  "print_of (Print text) = [text]"
| "print_of _ = []"

definition prints :: "(op \<times> sigset) list \<Rightarrow> string list" where
  "prints tr = concat (map (\<lambda>e. print_of (fst e)) tr)"

text \<open>The files opened with \<open>O_CREAT\<close>, as (name, flags, mode).\<close>

fun creation_of :: "op \<Rightarrow> (string \<times> mode_t \<times> mode_t) list" where
  "creation_of (Open name flags md) = (if flags AND O_CREAT \<noteq> 0 then [(name, flags, md)] else [])"
| "creation_of _ = []"

definition creations :: "(op \<times> sigset) list \<Rightarrow> (string \<times> mode_t \<times> mode_t) list" where
  "creations tr = concat (map (\<lambda>e. creation_of (fst e)) tr)"

text \<open>Permission bits that give the owner read and write and nobody else anything.\<close>

definition owner_only :: "mode_t \<Rightarrow> bool" where
  "owner_only md =
     (md AND (S_IRUSR OR S_IWUSR) = (S_IRUSR OR S_IWUSR) \<and>
      md AND (S_IRGRP OR S_IWGRP OR S_IXGRP OR S_IROTH OR S_IWOTH OR S_IXOTH) = 0)"

subsection \<open>Example states\<close>

definition st0 :: shell where
  "st0 = \<lparr>jobs = init_job_list, mask = 0, errno = 0, trace = [], pending = [],
     fork_ret = 100, open_errno = (\<lambda>n f. 0), exec_errno = (\<lambda>n. 0), kill_errno = (\<lambda>t. 0),
     wait_errno = 10, write_ok = True\<rparr>"

definition fg_table :: "job list" where
  "fg_table = init_job_list[0 := \<lparr>jpid = 100, jstate = FG, jcmdline = ''/bin/sleep 5''\<rparr>]"

definition jobs_to_file :: cmdline_tokens where
  "jobs_to_file =
     \<lparr>argv = [''jobs''], infile = None, outfile = Some ''out'', builtin = BUILTIN_JOBS\<rparr>"

definition ls_to_file :: cmdline_tokens where
  "ls_to_file =
     \<lparr>argv = [''/bin/ls''], infile = None, outfile = Some ''out'', builtin = BUILTIN_NONE\<rparr>"

subsection \<open>Job list accesses and the signal mask\<close>

fun is_table_op :: "op \<Rightarrow> bool" where
  "is_table_op (AddJob p st c) = True"
| "is_table_op (DeleteJob j) = True"
| "is_table_op (JobSetState j st) = True"
| "is_table_op (JobFromPid p) = True"
| "is_table_op (JobGetPid j) = True"
| "is_table_op (JobGetCmdline j) = True"
| "is_table_op (JobExists j) = True"
| "is_table_op FgJob = True"
| "is_table_op (ListJobs f t) = True"
| "is_table_op _ = False"

text \<open>Every job list call of the trace was made with all signals blocked.\<close>

definition table_ops_blocked :: "(op \<times> sigset) list \<Rightarrow> bool" where
  "table_ops_blocked tr = list_all (\<lambda>e. is_table_op (fst e) \<longrightarrow> snd e = mask_all) tr"

text \<open>The trace of \<open>s'\<close> continues the trace of \<open>s\<close>.\<close>

definition extends :: "shell \<Rightarrow> shell \<Rightarrow> bool" where
  "extends s s' = (take (length (trace s)) (trace s') = trace s)"

text \<open>A state with a foreground job, one stop and one exit waiting to be reaped, and an
  environment in which \<open>kill\<close> and the last \<open>waitpid\<close> fail and set \<open>errno\<close>.\<close>

definition busy :: shell where
  "busy = st0\<lparr>jobs := fg_table, errno := 5, mask := 1, kill_errno := (\<lambda>t. 3),
     pending := [(100, WStopped 20), (7, WExited 0)]\<rparr>"

subsection \<open>Failures in the child\<close>

fun exec_of :: "op \<Rightarrow> string list" where
  "exec_of (Execve prog args) = [prog]"
| "exec_of _ = []"

definition execs :: "(op \<times> sigset) list \<Rightarrow> string list" where
  "execs tr = concat (map (\<lambda>e. exec_of (fst e)) tr)"

text \<open>What the child prints for a failure with error number \<open>e\<close> on \<open>name\<close>, following
  the amended claim: a line for \<open>ENOENT\<close>, a line for \<open>EACCES\<close>, nothing otherwise.\<close>

definition diagnostic :: "string \<Rightarrow> int \<Rightarrow> string list" where
  "diagnostic name e =
     (if e = ENOENT then [name @ '': No such file or directory'' @ nl]
      else if e = EACCES then [name @ '': Permission denied'' @ nl]
      else [])"

definition input_ok :: "cmdline_tokens \<Rightarrow> shell \<Rightarrow> bool" where
  "input_ok tok s = (case infile tok of None \<Rightarrow> True | Some f \<Rightarrow> open_errno s f O_RDONLY = 0)"

definition output_ok :: "cmdline_tokens \<Rightarrow> shell \<Rightarrow> bool" where
  "output_ok tok s =
     (case outfile tok of
        None \<Rightarrow> True
      | Some f \<Rightarrow> open_errno s f (O_CREAT OR O_TRUNC OR O_WRONLY) = 0)"

definition program :: "cmdline_tokens \<Rightarrow> string" where
  "program tok = (case argv tok of [] \<Rightarrow> [] | a # as \<Rightarrow> a)"

text \<open>The child of a fork, in an environment where \<open>./notes.txt\<close> is executable but not a
  program (\<open>ENOEXEC\<close>, 8), other programs are missing, \<open>secret\<close> may not be read and \<open>/tmp\<close>
  is a directory (\<open>EISDIR\<close>, 21).\<close>

definition in_child :: shell where
  "in_child = st0\<lparr>fork_ret := 0,
      exec_errno := (\<lambda>n. if n = ''./notes.txt'' then 8 else 2),
      open_errno := (\<lambda>n f. if n = ''secret'' then 13 else if n = ''/tmp'' then 21 else 0)\<rparr>"

definition notes_txt :: cmdline_tokens where
  "notes_txt =
     \<lparr>argv = [''./notes.txt''], infile = None, outfile = None, builtin = BUILTIN_NONE\<rparr>"

definition cat_secret :: cmdline_tokens where
  "cat_secret =
     \<lparr>argv = [''/bin/cat''], infile = Some ''secret'', outfile = None, builtin = BUILTIN_NONE\<rparr>"

definition ls_to_tmp :: cmdline_tokens where
  "ls_to_tmp =
     \<lparr>argv = [''/bin/ls''], infile = None, outfile = Some ''/tmp'', builtin = BUILTIN_NONE\<rparr>"

definition missing :: cmdline_tokens where
  "missing =
     \<lparr>argv = [''./nonexistent''], infile = None, outfile = None, builtin = BUILTIN_NONE\<rparr>"

subsection \<open>What reaping one child does, in the words of the spec\<close>

text \<open>
  For one reaped child, the job list after it and the lines printed: a stopped child has
  its job set to \<open>ST\<close> and a stop line printed; a child killed by a signal has a
  termination line printed and its job removed; a child that exited has its job removed
  and nothing printed. A continued child is never reported by the \<open>waitpid\<close> call of the
  handler and is left out.
\<close>

fun reap_effect :: "int \<times> wstatus \<Rightarrow> job list \<Rightarrow> job list \<times> string list" where
  "reap_effect (pid, WStopped n) t =
     (job_set_state (job_from_pid pid t) ST t,
      [''Job ['' @ show_int (job_from_pid pid t) @ ''] ('' @ show_int pid
         @ '') stopped by signal '' @ show_int n @ nl])"
| "reap_effect (pid, WSignaled n) t =
     (delete_job (job_from_pid pid t) t,
      [''Job ['' @ show_int (job_from_pid pid t) @ ''] ('' @ show_int pid
         @ '') terminated by signal '' @ show_int n @ nl])"
| "reap_effect (pid, WExited c) t = (delete_job (job_from_pid pid t) t, [])"
| "reap_effect (pid, WContinued) t = (t, [])"




definition stopped_table :: "job list" where
  "stopped_table =
     init_job_list[0 := \<lparr>jpid = 100, jstate = ST, jcmdline = ''/bin/sleep 5''\<rparr>]"

definition continued_st :: shell where
  "continued_st = st0\<lparr>jobs := stopped_table, pending := [(100, WContinued)]\<rparr>"

subsection \<open>Arguments of \<open>bg\<close> and \<open>fg\<close>\<close>

text \<open>
  The argument \<open>argv[1]\<close>; the shape test the code makes (on the first character only);
  the shape the claim speaks of (a bare number, or \<open>%\<close> and a number); and the job an
  argument resolves to, as (job id, process id): \<open>%\<close> followed by a job id that exists,
  or the process id of a live job, each read by \<open>strtol\<close>.
\<close>

definition argument :: "cmdline_tokens \<Rightarrow> string" where
  "argument tok = (if 1 < argc tok then argv tok ! 1 else [])"

definition good_shape :: "string \<Rightarrow> bool" where
  "good_shape arg = (first_char arg = CHR ''%'' \<or> isdigit (first_char arg))"

definition lookup_arg :: "string \<Rightarrow> job list \<Rightarrow> (int \<times> int) option" where
  "lookup_arg arg t =
     (if first_char arg = CHR ''%'' then
        (let jid = to_int (strtol (tl arg))
         in if job_exists jid t then Some (jid, job_get_pid jid t) else None)
      else
        (let pid = to_int (strtol arg); jid = job_from_pid pid t
         in if job_exists jid t then Some (jid, pid) else None))"

fun suspend_of :: "op \<Rightarrow> sigset list" where
  "suspend_of (Sigsuspend m) = [m]"
| "suspend_of _ = []"

definition suspends :: "(op \<times> sigset) list \<Rightarrow> sigset list" where
  "suspends tr = concat (map (\<lambda>e. suspend_of (fst e)) tr)"

definition command_name :: "cmdline_tokens \<Rightarrow> string" where
  "command_name tok = (if builtin tok = BUILTIN_BG then ''bg'' else ''fg'')"

definition job12_table :: "job list" where
  "job12_table = init_job_list[0 := \<lparr>jpid = 12, jstate = ST, jcmdline = ''/bin/sleep 5''\<rparr>]"

definition st12 :: shell where
  "st12 = st0\<lparr>jobs := job12_table\<rparr>"

definition bg_12abc :: cmdline_tokens where
  "bg_12abc = \<lparr>argv = [''bg'', ''12abc''], infile = None, outfile = None, builtin = BUILTIN_BG\<rparr>"

definition is_number :: "string \<Rightarrow> bool" where
  "is_number str = (str \<noteq> [] \<and> list_all isdigit str)"

definition number_shape :: "string \<Rightarrow> bool" where
  "number_shape arg = (is_number arg \<or> (first_char arg = CHR ''%'' \<and> is_number (tl arg)))"

definition numeric_prefix :: "string \<Rightarrow> int" where
  "numeric_prefix str = decimal (takeWhile isdigit str)"

definition plain :: "string \<Rightarrow> bool" where
  "plain str = (case str of [] \<Rightarrow> True | c # cs \<Rightarrow> \<not> isspace c \<and> c \<noteq> CHR ''+'' \<and> c \<noteq> CHR ''-'')"





definition quiet :: "shell \<Rightarrow> shell \<Rightarrow> bool" where
  "quiet s s' = (jobs s' = jobs s \<and> mask s' = mask s \<and> extends s s' \<and>
     prints (new_events s s') = [] \<and> kills (new_events s s') = [] \<and>
     suspends (new_events s s') = [])"

definition bg_pct7x :: cmdline_tokens where
  "bg_pct7x = \<lparr>argv = [''bg'', ''%1x''], infile = None, outfile = None, builtin = BUILTIN_BG\<rparr>"

subsection \<open>The foreground wait\<close>

text \<open>
  Some job is in the foreground; every foreground job belongs to process \<open>pid\<close>; the
  children reaped in a trace, as (process id, status); and: the trace shows \<open>waitpid\<close>
  reporting that process \<open>pid\<close> has stopped, was terminated by a signal or has exited.
  \<open>handled\<close> is what one signal handler run keeps true of these.
\<close>

definition has_fg :: "job list \<Rightarrow> bool" where
  "has_fg t = list_ex (\<lambda>j. jstate j = FG) t"

definition fg_only :: "int \<Rightarrow> job list \<Rightarrow> bool" where
  "fg_only pid t = list_all (\<lambda>j. jstate j = FG \<longrightarrow> jpid j = pid) t"

fun WIFEXITED :: "wstatus \<Rightarrow> bool" where
  "WIFEXITED (WExited c) = True"
| "WIFEXITED _ = False"

fun reap_of :: "op \<Rightarrow> (int \<times> wstatus) list" where
  "reap_of (Waitpid options p (Some st)) = [(p, st)]"
| "reap_of _ = []"

definition reaps :: "(op \<times> sigset) list \<Rightarrow> (int \<times> wstatus) list" where
  "reaps tr = concat (map (\<lambda>e. reap_of (fst e)) tr)"

definition stopped_or_ended :: "int \<Rightarrow> (op \<times> sigset) list \<Rightarrow> bool" where
  "stopped_or_ended pid tr =
     list_ex (\<lambda>c. fst c = pid \<and> (WIFSTOPPED (snd c) \<or> WIFSIGNALED (snd c) \<or> WIFEXITED (snd c)))
       (reaps tr)"

definition handled :: "int \<Rightarrow> shell \<Rightarrow> shell \<Rightarrow> bool" where
  "handled pid s s' =
     (extends s s' \<and> fg_only pid (jobs s') \<and>
      (has_fg (jobs s) \<longrightarrow> has_fg (jobs s') \<or> stopped_or_ended pid (new_events s s')) \<and>
      suspends (new_events s s') = [])"

fun is_returned :: "outcome \<Rightarrow> bool" where
  "is_returned (Returned s) = True"
| "is_returned _ = False"

definition full_table :: "job list" where
  "full_table =
     map (\<lambda>i. \<lparr>jpid = 200 + int i, jstate = BG, jcmdline = ''/bin/sleep 100 &''\<rparr>) [0..<16]"

definition full_st :: shell where
  "full_st = st0\<lparr>jobs := full_table\<rparr>"

definition sleep5 :: cmdline_tokens where
  "sleep5 = \<lparr>argv = [''/bin/sleep'', ''5''], infile = None, outfile = None,
     builtin = BUILTIN_NONE\<rparr>"

definition fg_job1 :: cmdline_tokens where
  "fg_job1 = \<lparr>argv = [''fg'', ''%1''], infile = None, outfile = None, builtin = BUILTIN_FG\<rparr>"

definition bg_big :: cmdline_tokens where
  "bg_big = \<lparr>argv = [''bg'', ''4294967308''], infile = None, outfile = None,
     builtin = BUILTIN_BG\<rparr>"

definition bg_plus1 :: cmdline_tokens where
  "bg_plus1 = \<lparr>argv = [''bg'', ''%+1''], infile = None, outfile = None, builtin = BUILTIN_BG\<rparr>"

definition fg_12abc :: cmdline_tokens where
  "fg_12abc = \<lparr>argv = [''fg'', ''12abc''], infile = None, outfile = None, builtin = BUILTIN_FG\<rparr>"

definition bg_99 :: cmdline_tokens where
  "bg_99 = \<lparr>argv = [''bg'', ''99x''], infile = None, outfile = None, builtin = BUILTIN_BG\<rparr>"

section \<open>Basic facts\<close>

lemma kills_append [simp]: "kills (xs @ ys) = kills xs @ kills ys"
  by (simp add: kills_def)

lemma kills_simps [simp]: "kills [] = []" "kills (e # tr) = kill_of (fst e) @ kills tr"
  by (simp_all add: kills_def)

lemma prints_append [simp]: "prints (xs @ ys) = prints xs @ prints ys"
  by (simp add: prints_def)

lemma prints_simps [simp]: "prints [] = []" "prints (e # tr) = print_of (fst e) @ prints tr"
  by (simp_all add: prints_def)

lemma creations_append [simp]: "creations (xs @ ys) = creations xs @ creations ys"
  by (simp add: creations_def)

lemma creations_simps [simp]:
  "creations [] = []" "creations (e # tr) = creation_of (fst e) @ creations tr"
  by (simp_all add: creations_def)

lemma or_mask_all [simp]: "m OR mask_all = mask_all"
  by (simp add: mask_all_def)

lemmas prim_defs = sigprocmask_def emit_def sio_printf_def kill_def do_add_job_def
  do_delete_job_def do_job_set_state_def sys_open_def report_errno_def

lemmas flag_defs = O_CREAT_def O_TRUNC_def O_WRONLY_def O_RDONLY_def

lemmas mode_defs = MODE_def S_IRUSR_def S_IWUSR_def S_IXUSR_def S_IRGRP_def S_IWGRP_def
  S_IXGRP_def S_IROTH_def S_IWOTH_def S_IXOTH_def

lemma table_facts:
  "fg_job fg_table = 1" "job_get_pid 1 fg_table = 100" "fg_job init_job_list = 0"
  by code_simp+

lemma table_ops_blocked_append [simp]:
  "table_ops_blocked (xs @ ys) = (table_ops_blocked xs \<and> table_ops_blocked ys)"
  by (simp add: table_ops_blocked_def)

lemma table_ops_blocked_simps [simp]:
  "table_ops_blocked [] = True"
  "table_ops_blocked (e # tr) = ((is_table_op (fst e) \<longrightarrow> snd e = mask_all) \<and> table_ops_blocked tr)"
  by (simp_all add: table_ops_blocked_def)

lemma extends_refl [simp]: "extends s s"
  by (simp add: extends_def)

lemma extends_append: "extends s s' \<longleftrightarrow> (\<exists>new. trace s' = trace s @ new)"
  unfolding extends_def by (metis append_eq_conv_conj append_take_drop_id)

lemma extends_trans: "extends s s' \<Longrightarrow> extends s' s'' \<Longrightarrow> extends s s''"
  by (auto simp: extends_append)

lemma new_events_trans:
  "extends s s' \<Longrightarrow> extends s' s'' \<Longrightarrow> new_events s s'' = new_events s s' @ new_events s' s''"
  by (auto simp: extends_append new_events_def)

lemma new_events_self [simp]: "new_events s s = []"
  by (simp add: new_events_def)

subsection \<open>The reaping loop\<close>

lemma reap_one_props:
  "mask (reap_one pid st s) = mask s" "extends s (reap_one pid st s)"
  "table_ops_blocked (new_events s (reap_one pid st s))"
  by (simp_all add: reap_one_def Let_def prim_defs new_events_def extends_def)

lemma waitpid_props:
  assumes "waitpid options s = Some (r, s1)"
  shows "mask s1 = mask s" "extends s s1" "table_ops_blocked (new_events s s1)" "jobs s1 = jobs s"
  using assms
  by (auto simp: waitpid_def emit_def new_events_def extends_def split: option.splits if_splits)

lemma waitpid_nohang: "\<exists>r s1. waitpid (WNOHANG OR WUNTRACED) s = Some (r, s1)"
  by (auto simp: waitpid_def WNOHANG_def WUNTRACED_def split: option.splits)

lemma reap_loop_props:
  "\<exists>s'. reap_loop s = Some s' \<and> mask s' = mask s \<and> extends s s' \<and>
        table_ops_blocked (new_events s s')"
proof (induction s rule: reap_loop.induct)
  case (1 s)
  obtain r s1 where w: "waitpid (WNOHANG OR WUNTRACED) s = Some (r, s1)"
    using waitpid_nohang by blast
  note wp = waitpid_props [OF w]
  show ?case
  proof (cases r)
    case (Reaped pid status)
    show ?thesis
    proof (cases "pid > 0")
      case True
      let ?s2 = "reap_one pid status s1"
      from "1.IH" [OF w refl Reaped True]
      obtain s' where s': "reap_loop ?s2 = Some s'" "mask s' = mask ?s2" "extends ?s2 s'"
        "table_ops_blocked (new_events ?s2 s')" by blast
      have e1: "extends s ?s2" using wp(2) reap_one_props(2) extends_trans by blast
      have "new_events s s' = new_events s s1 @ new_events s1 ?s2 @ new_events ?s2 s'"
        using new_events_trans [OF e1 s'(3)] new_events_trans [OF wp(2) reap_one_props(2)]
        by simp
      then have "table_ops_blocked (new_events s s')"
        using wp(3) reap_one_props(3) s'(4) by simp
      moreover have "reap_loop s = Some s'"
        using w Reaped True s'(1) by (subst reap_loop.simps) simp
      ultimately show ?thesis
        using s'(2) wp(1) e1 s'(3) extends_trans reap_one_props(1) by auto
    next
      case False
      then have "reap_loop s = Some s1"
        using w Reaped by (subst reap_loop.simps) simp
      then show ?thesis using wp by simp
    qed
  next
    case NoChange
    then have "reap_loop s = Some s1"
      using w by (subst reap_loop.simps) simp
    then show ?thesis using wp by simp
  next
    case WaitError
    then have "reap_loop s = Some s1"
      using w by (subst reap_loop.simps) simp
    then show ?thesis using wp by simp
  qed
qed

lemma execs_append [simp]: "execs (xs @ ys) = execs xs @ execs ys"
  by (simp add: execs_def)

lemma execs_simps [simp]: "execs [] = []" "execs (e # tr) = exec_of (fst e) @ execs tr"
  by (simp_all add: execs_def)

subsection \<open>The effect of the reaping loop on the job list and the output\<close>

lemma reportable_handler [simp]: "reportable (WNOHANG OR WUNTRACED) st \<longleftrightarrow> st \<noteq> WContinued"
  by (cases st) (simp_all add: WNOHANG_def WUNTRACED_def WCONTINUED_def)

lemma take_first_Some:
  "take_first P xs = Some (y, ys) \<Longrightarrow>
     P y \<and> filter P xs = y # filter P ys \<and> filter (\<lambda>x. \<not> P x) xs = filter (\<lambda>x. \<not> P x) ys
     \<and> set ys \<subseteq> set xs \<and> y \<in> set xs"
  by (induction xs arbitrary: y ys) (auto split: if_splits option.splits)


lemma reap_one_effect:
  assumes "st \<noteq> WContinued"
  shows "jobs (reap_one pid st s) = fst (reap_effect (pid, st) (jobs s))"
    "prints (new_events s (reap_one pid st s)) = snd (reap_effect (pid, st) (jobs s))"
  using assms by (cases st; simp add: reap_one_def Let_def prim_defs new_events_def)+

lemma waitpid_reaped:
  assumes "waitpid (WNOHANG OR WUNTRACED) s = Some (Reaped p st, s1)"
  shows "take_first (\<lambda>c. snd c \<noteq> WContinued) (pending s) = Some ((p, st), pending s1)"
    "prints (new_events s s1) = []"
  using assms
  by (auto simp: waitpid_def emit_def new_events_def split: option.splits if_splits)




lemma stopped_table_facts: "job_get_pid 1 stopped_table = 100" "fg_job stopped_table = 0"
  by code_simp+

subsection \<open>The argument handling of \<open>bg\<close> and \<open>fg\<close>\<close>

lemma suspends_append [simp]: "suspends (xs @ ys) = suspends xs @ suspends ys"
  by (simp add: suspends_def)
lemma suspends_simps [simp]: "suspends [] = []" "suspends (e # tr) = suspend_of (fst e) @ suspends tr"
  by (simp_all add: suspends_def)

lemma resolve_missing:
  "argc tok = 1 \<Longrightarrow> resolve name tok prev s =
     Inl (sigprocmask SIG_SETMASK prev
            (sio_printf (name @ '' command requires PID or %jobid argument'' @ nl) s))"
  by (simp add: resolve_def)

lemma resolve_shape:
  "argc tok \<noteq> 1 \<Longrightarrow> \<not> good_shape (argument tok) \<Longrightarrow> resolve name tok prev s =
     Inl (sigprocmask SIG_SETMASK prev
            (sio_printf (name @ '': argument must be a PID or %jobid'' @ nl) s))"
  by (simp add: resolve_def good_shape_def argument_def Let_def)

lemma resolve_none:
  assumes "argc tok \<noteq> 1" "good_shape (argument tok)" "lookup_arg (argument tok) (jobs s) = None"
  shows "case resolve name tok prev s of
           Inl s' \<Rightarrow> jobs s' = jobs s \<and> mask s' = prev \<and> 
                    prints (new_events s s') = [argument tok @ '': No such job'' @ nl] \<and>
                    kills (new_events s s') = []
         | Inr r \<Rightarrow> False"
proof (cases "first_char (argument tok) = CHR ''%''")
  case True
  with assms show ?thesis
    by (simp add: resolve_def argument_def lookup_arg_def Let_def no_such_job_def prim_defs
        new_events_def split: if_splits)
next
  case False
  with assms show ?thesis
    by (simp add: resolve_def argument_def lookup_arg_def good_shape_def Let_def no_such_job_def
        prim_defs new_events_def split: if_splits)
qed

lemma resolve_some:
  assumes "argc tok \<noteq> 1" "good_shape (argument tok)"
    "lookup_arg (argument tok) (jobs s) = Some (jid, pid)"
  shows "case resolve name tok prev s of
           Inl s' \<Rightarrow> False
         | Inr r \<Rightarrow> fst r = jid \<and> fst (snd r) = pid \<and> quiet s (snd (snd r))"
proof (cases "first_char (argument tok) = CHR ''%''")
  case True
  with assms show ?thesis
    by (auto simp add: resolve_def argument_def lookup_arg_def Let_def emit_def quiet_def
        extends_def new_events_def split: if_splits)
next
  case False
  with assms show ?thesis
    by (auto simp add: resolve_def argument_def lookup_arg_def good_shape_def Let_def emit_def quiet_def
        extends_def new_events_def split: if_splits)
qed

lemma sigprocmask_block_props:
  "jobs (sigprocmask SIG_BLOCK mask_all s) = jobs s"
  "mask (sigprocmask SIG_BLOCK mask_all s) = mask_all"
  "extends s (sigprocmask SIG_BLOCK mask_all s)"
  "prints (new_events s (sigprocmask SIG_BLOCK mask_all s)) = []"
  "kills (new_events s (sigprocmask SIG_BLOCK mask_all s)) = []"
  "suspends (new_events s (sigprocmask SIG_BLOCK mask_all s)) = []"
  by (simp_all add: prim_defs extends_def new_events_def)

lemma eval_bg_fg:
  assumes "parse_result \<noteq> PARSELINE_ERROR" "parse_result \<noteq> PARSELINE_EMPTY"
    and "builtin tok = BUILTIN_BG \<or> builtin tok = BUILTIN_FG"
  shows "eval parse_result tok cmdline as s =
      (if builtin tok = BUILTIN_BG then Returned (builtin_bg tok s) else builtin_fg tok as s)"
  using assms by (auto simp add: eval_def)

lemma eval_bg_fg_early:
  assumes "parse_result \<noteq> PARSELINE_ERROR" "parse_result \<noteq> PARSELINE_EMPTY"
    and "builtin tok = BUILTIN_BG \<or> builtin tok = BUILTIN_FG"
    and "resolve (command_name tok) tok (mask s) (sigprocmask SIG_BLOCK mask_all s) = Inl s2"
  shows "eval parse_result tok cmdline as s = Returned s2"
  using assms(3,4) eval_bg_fg [OF assms(1-3)]
  by (auto simp add: builtin_bg_def builtin_fg_def command_name_def Let_def)

lemma resolve_extends:
  "resolve name tok prev s = Inl s' \<Longrightarrow> extends s s'"
  by (auto simp add: resolve_def no_such_job_def Let_def prim_defs extends_def
          split: if_splits)

lemma new_events_after:
  "extends s s1 \<Longrightarrow> trace s2 = trace s1 @ X \<Longrightarrow> new_events s s2 = new_events s s1 @ X"
  by (auto simp add: extends_append new_events_def)

lemma resolve_found:
  assumes "argc tok \<noteq> 1" "good_shape (argument tok)"
    "lookup_arg (argument tok) (jobs s) = Some (jid, pid)"
  shows "\<exists>s1. resolve name tok prev (sigprocmask SIG_BLOCK mask_all s) = Inr (jid, pid, s1) \<and>
       jobs s1 = jobs s \<and> mask s1 = mask_all \<and> extends s s1 \<and>
       prints (new_events s s1) = [] \<and> kills (new_events s s1) = [] \<and>
       suspends (new_events s s1) = []"
proof -
  let ?b = "sigprocmask SIG_BLOCK mask_all s"
  have l: "lookup_arg (argument tok) (jobs ?b) = Some (jid, pid)"
    using assms(3) by (simp add: prim_defs)
  from resolve_some [OF assms(1,2) l, where name = name and prev = prev]
  obtain s1 where s1: "resolve name tok prev ?b = Inr (jid, pid, s1)" "quiet ?b s1"
    by (auto split: sum.splits)
  have ex: "extends ?b s1" using s1(2) by (simp add: quiet_def)
  have "new_events s s1 = new_events s ?b @ new_events ?b s1"
    by (rule new_events_trans [OF sigprocmask_block_props(3) ex])
  moreover have "extends s s1"
    by (rule extends_trans [OF sigprocmask_block_props(3) ex])
  ultimately show ?thesis
    using s1 sigprocmask_block_props [of s] by (simp add: quiet_def)
qed

lemma resolve_not_found:
  assumes "argc tok \<noteq> 1" "good_shape (argument tok)" "lookup_arg (argument tok) (jobs s) = None"
  shows "\<exists>s'. resolve name tok prev (sigprocmask SIG_BLOCK mask_all s) = Inl s' \<and>
          prints (new_events s s') = [argument tok @ '': No such job'' @ nl] \<and>
          jobs s' = jobs s \<and> kills (new_events s s') = [] \<and> mask s' = prev"
proof -
  let ?b = "sigprocmask SIG_BLOCK mask_all s"
  have l: "lookup_arg (argument tok) (jobs ?b) = None" using assms(3) by (simp add: prim_defs)
  from resolve_none [OF assms(1,2) l, where name = name and prev = prev]
  obtain s' where s': "resolve name tok prev ?b = Inl s'" "jobs s' = jobs ?b" "mask s' = prev"
    "prints (new_events ?b s') = [argument tok @ '': No such job'' @ nl]"
    "kills (new_events ?b s') = []"
    by (auto split: sum.splits)
  have "new_events s s' = new_events s ?b @ new_events ?b s'"
    by (rule new_events_trans [OF sigprocmask_block_props(3) resolve_extends [OF s'(1)]])
  then show ?thesis using s' sigprocmask_block_props [of s] by simp
qed

lemma bg_found:
  assumes "extends s s1" "jobs s1 = jobs s" "mask s1 = mask_all"
    "prints (new_events s s1) = []" "kills (new_events s s1) = []" "suspends (new_events s s1) = []"
  shows "kills (new_events s (sigprocmask SIG_SETMASK prev (do_job_set_state jid BG
            (kill (- pid) SIGCONT (sio_printf text (emit (JobGetCmdline jid) s1))))))
           = [(- pid, SIGCONT)]"
    "suspends (new_events s (sigprocmask SIG_SETMASK prev (do_job_set_state jid BG
            (kill (- pid) SIGCONT (sio_printf text (emit (JobGetCmdline jid) s1)))))) = []"
    "jobs (sigprocmask SIG_SETMASK prev (do_job_set_state jid BG
            (kill (- pid) SIGCONT (sio_printf text (emit (JobGetCmdline jid) s1)))))
           = job_set_state jid BG (jobs s)"
    "mask (sigprocmask SIG_SETMASK prev (do_job_set_state jid BG
            (kill (- pid) SIGCONT (sio_printf text (emit (JobGetCmdline jid) s1))))) = prev"
    "prints (new_events s (sigprocmask SIG_SETMASK prev (do_job_set_state jid BG
            (kill (- pid) SIGCONT (sio_printf text (emit (JobGetCmdline jid) s1)))))) = [text]"
proof -
  let ?s' = "sigprocmask SIG_SETMASK prev (do_job_set_state jid BG
            (kill (- pid) SIGCONT (sio_printf text (emit (JobGetCmdline jid) s1))))"
  have t: "trace ?s' = trace s1 @ [(JobGetCmdline jid, mask_all), (Print text, mask_all),
      (Kill (- pid) SIGCONT, mask_all), (JobSetState jid BG, mask_all),
      (Sigprocmask SIG_SETMASK prev, mask_all)]"
    using assms(3) by (simp add: prim_defs Let_def)
  note ne = new_events_after [OF assms(1) t]
  show "kills (new_events s ?s') = [(- pid, SIGCONT)]" using assms(5) by (simp add: ne)
  show "suspends (new_events s ?s') = []" using assms(6) by (simp add: ne)
  show "jobs ?s' = job_set_state jid BG (jobs s)" using assms(2) by (simp add: prim_defs Let_def)
  show "mask ?s' = prev" by (simp add: prim_defs Let_def)
  show "prints (new_events s ?s') = [text]" using assms(4) by (simp add: ne)
qed

lemma bg_resolved:
  assumes "parse_result \<noteq> PARSELINE_ERROR" "parse_result \<noteq> PARSELINE_EMPTY"
    and b: "builtin tok = BUILTIN_BG"
    and a: "argc tok \<noteq> 1" "good_shape (argument tok)"
      "lookup_arg (argument tok) (jobs s) = Some (jid, pid)"
  shows "\<exists>s'. eval parse_result tok cmdline as s = Returned s' \<and>
             kills (new_events s s') = [(- pid, SIGCONT)] \<and>
             prints (new_events s s') = [''['' @ show_int jid @ ''] ('' @ show_int pid @ '') ''
                          @ job_get_cmdline jid (jobs s) @ nl] \<and>
             jobs s' = job_set_state jid BG (jobs s) \<and>
             suspends (new_events s s') = [] \<and> mask s' = mask s"
proof -
  from resolve_found [OF a, where name = "''bg''" and prev = "mask s"]
  obtain s1 where s1:
    "resolve ''bg'' tok (mask s) (sigprocmask SIG_BLOCK mask_all s) = Inr (jid, pid, s1)"
    and p: "extends s s1" "jobs s1 = jobs s" "mask s1 = mask_all"
      "prints (new_events s s1) = []" "kills (new_events s s1) = []"
      "suspends (new_events s s1) = []"
    by blast
  have "eval parse_result tok cmdline as s = Returned (builtin_bg tok s)"
    using assms(1,2) b by (simp add: eval_def)
  then show ?thesis
    using s1 p(2) bg_found [OF p]
    by (simp add: builtin_bg_def Let_def)
qed

lemma fg_found:
  assumes "extends s s1" "jobs s1 = jobs s" "mask s1 = mask_all"
    "prints (new_events s s1) = []" "kills (new_events s s1) = []" "suspends (new_events s s1) = []"
  shows "kills (new_events s (do_job_set_state jid FG (kill (- pid) SIGCONT s1)))
           = [(- pid, SIGCONT)]"
    "suspends (new_events s (do_job_set_state jid FG (kill (- pid) SIGCONT s1))) = []"
    "jobs (do_job_set_state jid FG (kill (- pid) SIGCONT s1)) = job_set_state jid FG (jobs s)"
    "mask (do_job_set_state jid FG (kill (- pid) SIGCONT s1)) = mask_all"
    "extends s (do_job_set_state jid FG (kill (- pid) SIGCONT s1))"
proof -
  let ?s' = "do_job_set_state jid FG (kill (- pid) SIGCONT s1)"
  have t: "trace ?s' = trace s1 @ [(Kill (- pid) SIGCONT, mask_all), (JobSetState jid FG, mask_all)]"
    using assms(3) by (simp add: prim_defs Let_def)
  note ne = new_events_after [OF assms(1) t]
  show "kills (new_events s ?s') = [(- pid, SIGCONT)]" using assms(5) by (simp add: ne)
  show "suspends (new_events s ?s') = []" using assms(6) by (simp add: ne)
  show "jobs ?s' = job_set_state jid FG (jobs s)" using assms(2) by (simp add: prim_defs Let_def)
  show "mask ?s' = mask_all" using assms(3) by (simp add: prim_defs Let_def)
  show "extends s ?s'" using assms(1) t by (auto simp add: extends_append)
qed

lemma arg_facts:
  "\<not> number_shape ''12abc''" "good_shape ''12abc''" "\<not> good_shape ''abc''" "good_shape ''%5''"
  "good_shape ''%1''" "good_shape ''12''"
  "lookup_arg ''12abc'' job12_table = Some (1, 12)"
  "lookup_arg ''%5'' job12_table = None"
  "lookup_arg ''%1'' job12_table = Some (1, 12)"
  "lookup_arg ''12'' job12_table = Some (1, 12)"
  "job_get_cmdline 1 job12_table = ''/bin/sleep 5''"
  "jstate (job12_table ! 0) = ST"
  "jstate (job_set_state 1 BG job12_table ! 0) = BG"
  "show_int 1 = ''1''" "show_int 12 = ''12''"
  by code_simp+

subsection \<open>Reading numbers\<close>

lemma digit_val_nonneg: "isdigit c \<Longrightarrow> 0 \<le> digit_val c"
  by (simp add: isdigit_def digit_val_def)

lemma decimal_nonneg_aux: "list_all isdigit ds \<Longrightarrow> 0 \<le> a \<Longrightarrow> 0 \<le> foldl (\<lambda>a c. a * 10 + digit_val c) a ds"
  by (induction ds arbitrary: a) (auto simp: digit_val_nonneg)

lemma numeric_prefix_nonneg: "0 \<le> numeric_prefix str"
proof -
  have "list_all isdigit (takeWhile isdigit str)"
    by (simp add: list_all_iff) (meson set_takeWhileD)
  then show ?thesis
    unfolding numeric_prefix_def decimal_def by (rule decimal_nonneg_aux) simp
qed

lemma to_int_small: "0 \<le> v \<Longrightarrow> v < 2 ^ 31 \<Longrightarrow> to_int (min LONG_MAX v) = v"
proof -
  assume a: "0 \<le> v" "v < 2 ^ 31"
  then have "min LONG_MAX v = v" by (simp add: LONG_MAX_def)
  moreover have "sint (word_of_int v :: 32 word) = v"
    using a by (simp add: sint_sbintrunc' signed_take_bit_int_eq_self)
  ultimately show ?thesis by (simp add: to_int_def)
qed

lemma isdigit_not_sign: "isdigit c \<Longrightarrow> \<not> isspace c \<and> c \<noteq> CHR ''+'' \<and> c \<noteq> CHR ''-''"
  by (auto simp add: isdigit_def isspace_def)

lemma strtol_plain: "plain str \<Longrightarrow> strtol str = min LONG_MAX (numeric_prefix str)"
  by (cases str) (auto simp add: plain_def strtol_def numeric_prefix_def Let_def)

lemma plain_digit: "isdigit (first_char arg) \<Longrightarrow> plain arg"
  using isdigit_not_sign by (cases arg) (auto simp add: plain_def first_char_def)

lemma percent_not_digit: "\<not> isdigit CHR ''%''"
  by (simp add: isdigit_def)

subsection \<open>Lookups in the job list\<close>

lemma fg_job_range: "0 \<le> fg_job t \<and> fg_job t \<le> int (length t)"
  by (induction t) (auto simp add: Let_def)

lemma fg_job_zero_iff: "fg_job t = 0 \<longleftrightarrow> \<not> has_fg t"
proof (induction t)
  case Nil
  then show ?case by (simp add: has_fg_def)
next
  case (Cons j t)
  then show ?case using fg_job_range [of t] by (auto simp add: Let_def has_fg_def)
qed

lemma fg_job_nth:
  "fg_job t \<noteq> 0 \<Longrightarrow> jstate (t ! (nat (fg_job t) - 1)) = FG"
proof (induction t)
  case Nil
  then show ?case by simp
next
  case (Cons j t)
  show ?case
  proof (cases "jstate j = FG")
    case True
    then show ?thesis by simp
  next
    case False
    with Cons.prems have r: "fg_job t \<noteq> 0" by (auto simp add: Let_def)
    with fg_job_range [of t] have "1 \<le> fg_job t" by simp
    then have "nat (fg_job t + 1) - 1 = Suc (nat (fg_job t) - 1)" by simp
    with False r Cons.IH show ?thesis by (simp add: Let_def)
  qed
qed

lemma fg_job_exists: "fg_job t \<noteq> 0 \<Longrightarrow> job_exists (fg_job t) t"
  using fg_job_range [of t] fg_job_nth [of t] by (auto simp add: job_exists_def)

lemma fg_job_pid:
  assumes "fg_job t \<noteq> 0" "fg_only pid t"
  shows "job_get_pid (fg_job t) t = pid"
proof -
  let ?i = "nat (fg_job t) - 1"
  have "?i < length t" using fg_job_range [of t] assms(1) by linarith
  then have "t ! ?i \<in> set t" by simp
  with assms(2) fg_job_nth [OF assms(1)] have "jpid (t ! ?i) = pid"
    by (simp add: fg_only_def list_all_iff)
  with fg_job_exists [OF assms(1)] show ?thesis by (simp add: job_get_pid_def)
qed

lemma job_from_pid_range: "0 \<le> job_from_pid p t \<and> job_from_pid p t \<le> int (length t)"
  by (induction t) (auto simp add: Let_def)

lemma job_from_pid_nth:
  "job_from_pid p t \<noteq> 0 \<Longrightarrow> jpid (t ! (nat (job_from_pid p t) - 1)) = p"
proof (induction t)
  case Nil
  then show ?case by simp
next
  case (Cons j t)
  show ?case
  proof (cases "jstate j \<noteq> UNDEF \<and> jpid j = p")
    case True
    then show ?thesis by simp
  next
    case False
    with Cons.prems have r: "job_from_pid p t \<noteq> 0" by (auto simp add: Let_def)
    with job_from_pid_range [of p t] have "1 \<le> job_from_pid p t" by simp
    then have "nat (job_from_pid p t + 1) - 1 = Suc (nat (job_from_pid p t) - 1)" by simp
    moreover have "job_from_pid p (j # t) = job_from_pid p t + 1"
      using False r by (auto simp add: Let_def)
    ultimately show ?thesis using r Cons.IH by simp
  qed
qed

lemma fg_only_update:
  "fg_only pid t \<Longrightarrow> jstate x \<noteq> FG \<Longrightarrow> fg_only pid (t[i := x])"
  unfolding fg_only_def list_all_iff
  using set_update_subset_insert [of t i x] by auto

lemma has_fg_update:
  assumes "has_fg t" "fg_only pid t" "i < length t" "jpid (t ! i) \<noteq> pid"
  shows "has_fg (t[i := x])"
proof -
  from assms(1) obtain m where m: "m < length t" "jstate (t ! m) = FG"
    by (auto simp add: has_fg_def list_ex_iff in_set_conv_nth)
  with assms(2) have "jpid (t ! m) = pid"
    by (auto simp add: fg_only_def list_all_iff)
  with assms(4) have "m \<noteq> i" by auto
  then have "t[i := x] ! m = t ! m" by simp
  moreover have "t[i := x] ! m \<in> set (t[i := x])" using m(1) by simp
  ultimately show ?thesis using m(2) by (auto simp add: has_fg_def list_ex_iff)
qed

lemma job_exists_from_pid:
  assumes "job_exists (job_from_pid p t) t"
  shows "nat (job_from_pid p t) - 1 < length t" "jpid (t ! (nat (job_from_pid p t) - 1)) = p"
proof -
  from assms have "1 \<le> job_from_pid p t" "nat (job_from_pid p t) \<le> length t"
    by (simp_all add: job_exists_def)
  then show "nat (job_from_pid p t) - 1 < length t" by simp
  from \<open>1 \<le> job_from_pid p t\<close> show "jpid (t ! (nat (job_from_pid p t) - 1)) = p"
    using job_from_pid_nth [of p t] by simp
qed

lemma reap_effect_fg_only:
  "fg_only pid t \<Longrightarrow> st \<noteq> WContinued \<Longrightarrow> fg_only pid (fst (reap_effect (p, st) t))"
  by (cases st)
     (auto simp add: job_set_state_def delete_job_def empty_job_def intro!: fg_only_update)

lemma reap_effect_has_fg:
  assumes "has_fg t" "fg_only pid t" "p \<noteq> pid"
  shows "has_fg (fst (reap_effect (p, st) t))"
proof (cases "job_exists (job_from_pid p t) t")
  case True
  note je = job_exists_from_pid [OF True]
  have "has_fg (t[nat (job_from_pid p t) - 1 := x])" for x
    using has_fg_update [OF assms(1,2) je(1)] je(2) assms(3) by simp
  then show ?thesis using assms(1)
    by (cases st) (simp_all add: job_set_state_def delete_job_def)
next
  case False
  then show ?thesis using assms(1)
    by (cases st) (simp_all add: job_set_state_def delete_job_def)
qed

subsection \<open>Handlers and the foreground job\<close>

lemma reaps_append [simp]: "reaps (xs @ ys) = reaps xs @ reaps ys"
  by (simp add: reaps_def)

lemma reaps_simps [simp]: "reaps [] = []" "reaps (e # tr) = reap_of (fst e) @ reaps tr"
  by (simp_all add: reaps_def)

lemma stopped_or_ended_append [simp]:
  "stopped_or_ended pid (xs @ ys) \<longleftrightarrow> stopped_or_ended pid xs \<or> stopped_or_ended pid ys"
  by (simp add: stopped_or_ended_def)

lemma stopped_or_ended_Nil [simp]: "\<not> stopped_or_ended pid []"
  by (simp add: stopped_or_ended_def)

lemma not_continued: "st \<noteq> WContinued \<longleftrightarrow> WIFSTOPPED st \<or> WIFSIGNALED st \<or> WIFEXITED st"
  by (cases st) simp_all

lemma handled_trans:
  assumes "handled pid s s1" "handled pid s1 s2"
  shows "handled pid s s2"
proof -
  have e: "extends s s1" "extends s1 s2" using assms by (simp_all add: handled_def)
  note ne = new_events_trans [OF e]
  show ?thesis
    using assms extends_trans [OF e] by (auto simp add: handled_def ne)
qed

lemma handled_silent:
  assumes "jobs s' = jobs s" "fg_only pid (jobs s)" "trace s' = trace s @ X" "suspends X = []"
  shows "handled pid s s'"
  using assms by (simp add: handled_def extends_append new_events_def)

lemma reap_step:
  assumes w: "waitpid (WNOHANG OR WUNTRACED) s = Some (Reaped p st, s1)"
    and f: "fg_only pid (jobs s)"
  shows "handled pid s (reap_one p st s1)"
proof -
  let ?s2 = "reap_one p st s1"
  note wp = waitpid_props [OF w]
  note tf = take_first_Some [OF waitpid_reaped(1) [OF w]]
  have st: "st \<noteq> WContinued" using tf by simp
  have e: "extends s ?s2" using wp(2) reap_one_props(2) extends_trans by blast
  have ne: "new_events s ?s2 = new_events s s1 @ new_events s1 ?s2"
    by (rule new_events_trans [OF wp(2) reap_one_props(2)])
  have j2: "jobs ?s2 = fst (reap_effect (p, st) (jobs s))"
    using reap_one_effect(1) [OF st] wp(4) by simp
  have r1: "reaps (new_events s s1) = [(p, st)]" "suspends (new_events s s1) = []"
    using w by (auto simp: waitpid_def emit_def new_events_def split: option.splits if_splits)
  have r2: "suspends (new_events s1 ?s2) = []"
    by (simp add: reap_one_def Let_def prim_defs new_events_def)
  have "has_fg (jobs ?s2) \<or> stopped_or_ended pid (new_events s ?s2)" if h: "has_fg (jobs s)"
  proof (cases "p = pid")
    case True
    then have "stopped_or_ended pid (new_events s s1)"
      using r1(1) st by (simp add: stopped_or_ended_def not_continued)
    then show ?thesis by (simp add: ne)
  next
    case False
    then show ?thesis using reap_effect_has_fg [OF h f] j2 by simp
  qed
  then show ?thesis
    using e reap_effect_fg_only [OF f st] j2 r1(2) r2 by (simp add: handled_def ne)
qed

lemma reap_loop_handled:
  "fg_only pid (jobs s) \<Longrightarrow> \<exists>s'. reap_loop s = Some s' \<and> mask s' = mask s \<and> handled pid s s'"
proof (induction s rule: reap_loop.induct)
  case (1 s)
  obtain r s1 where w: "waitpid (WNOHANG OR WUNTRACED) s = Some (r, s1)"
    using waitpid_nohang by blast
  note wp = waitpid_props [OF w]
  have quiet1: "r \<noteq> Reaped p st \<Longrightarrow> handled pid s s1" for p st
    using w "1.prems"
    by (auto simp: waitpid_def emit_def split: option.splits if_splits intro!: handled_silent)
  show ?case
  proof (cases r)
    case (Reaped p st)
    show ?thesis
    proof (cases "p > 0")
      case True
      let ?s2 = "reap_one p st s1"
      have h2: "handled pid s ?s2" using reap_step [OF w [unfolded Reaped] "1.prems"] .
      then have "fg_only pid (jobs ?s2)" by (simp add: handled_def)
      from "1.IH" [OF w refl Reaped True this]
      obtain s' where s': "reap_loop ?s2 = Some s'" "mask s' = mask ?s2" "handled pid ?s2 s'"
        by blast
      have "reap_loop s = Some s'"
        using w Reaped True s'(1) by (subst reap_loop.simps) simp
      then show ?thesis
        using s'(2) wp(1) reap_one_props(1) handled_trans [OF h2 s'(3)] by simp
    next
      case False
      have "reap_loop s = Some s1"
        using w Reaped False by (subst reap_loop.simps) simp
      moreover have "handled pid s s1"
        using w "1.prems" Reaped
        by (auto simp: waitpid_def emit_def split: option.splits if_splits intro!: handled_silent)
      ultimately show ?thesis using wp(1) by simp
    qed
  next
    case NoChange
    then have "reap_loop s = Some s1"
      using w by (subst reap_loop.simps) simp
    then show ?thesis using wp(1) quiet1 NoChange by simp
  next
    case WaitError
    then have "reap_loop s = Some s1"
      using w by (subst reap_loop.simps) simp
    then show ?thesis using wp(1) quiet1 WaitError by simp
  qed
qed

lemma sigchld_handler_handled:
  assumes "fg_only pid (jobs s)"
  shows "\<exists>s'. sigchld_handler s = Some s' \<and> mask s' = mask s \<and> handled pid s s'"
proof -
  from reap_loop_handled [OF assms] obtain r where r: "reap_loop s = Some r" "mask r = mask s"
    "handled pid s r" by blast
  have "handled pid r (r\<lparr>errno := errno s\<rparr>)"
    using r(3) by (intro handled_silent [where X = "[]"]) (simp_all add: handled_def)
  then show ?thesis
    using r handled_trans [OF r(3)] by (simp add: sigchld_handler_def)
qed

lemma sigint_handler_handled:
  assumes "fg_only pid (jobs s)"
  shows "handled pid s (sigint_handler s)" "handled pid s (sigtstp_handler s)"
  using assms
  by (auto simp add: sigint_handler_def sigtstp_handler_def Let_def prim_defs
      intro!: handled_silent)

lemma deliver_handled:
  assumes "deliver a s = Some s'" "fg_only pid (jobs s)"
  shows "mask s' = mask s" "handled pid s s'"
proof -
  let ?s1 = "(emit (Handler (fst a)) s)
                 \<lparr>mask := mask s OR sig_bit (fst a), pending := pending s @ snd a\<rparr>"
  have h1: "handled pid s ?s1"
    using assms(2) by (intro handled_silent [where X = "[(Handler (fst a), mask s)]"])
      (simp_all add: emit_def)
  have f1: "fg_only pid (jobs ?s1)" using assms(2) by (simp add: emit_def)
  obtain s2 where s2: "s' = s2\<lparr>mask := mask s\<rparr>" "handled pid ?s1 s2"
  proof (cases "fst a = SIGCHLD")
    case True
    from sigchld_handler_handled [OF f1] obtain r where
      "sigchld_handler ?s1 = Some r" "handled pid ?s1 r" by blast
    with assms(1) True that show ?thesis by (auto simp add: deliver_def Let_def)
  next
    case False
    note nc = False
    show ?thesis
    proof (cases "fst a = SIGINT")
      case True
      with assms(1) nc that sigint_handler_handled(1) [OF f1] show ?thesis
        by (auto simp add: deliver_def Let_def)
    next
      case False
      note ni = False
      show ?thesis
      proof (cases "fst a = SIGTSTP")
        case True
        with assms(1) nc ni that sigint_handler_handled(2) [OF f1] show ?thesis
          by (auto simp add: deliver_def Let_def)
      next
        case False
        have "handled pid ?s1 ?s1" using f1 by (intro handled_silent [where X = "[]"]) simp_all
        moreover have "s' = ?s1\<lparr>mask := mask s\<rparr>"
          using assms(1) nc ni False by (simp add: deliver_def Let_def)
        ultimately show ?thesis using that by blast
      qed
    qed
  qed
  have "handled pid s2 s'"
    using s2 by (intro handled_silent [where X = "[]"]) (simp_all add: handled_def)
  then show "handled pid s s'" using handled_trans h1 s2(2) by blast
  show "mask s' = mask s" using s2(1) by simp
qed

lemma sigsuspend_handled:
  assumes "sigsuspend m a s = Some s'" "fg_only pid (jobs s)"
  shows "mask s' = mask s" "extends s s'" "fg_only pid (jobs s')"
    "has_fg (jobs s) \<Longrightarrow> has_fg (jobs s') \<or> stopped_or_ended pid (new_events s s')"
    "suspends (new_events s s') = [m]"
proof -
  let ?s1 = "(emit (Sigsuspend m) s)\<lparr>mask := m\<rparr>"
  from assms(1) obtain s2 where s2: "deliver a ?s1 = Some s2"
    "s' = s2\<lparr>mask := mask s, errno := EINTR\<rparr>"
    by (auto simp add: sigsuspend_def Let_def split: option.splits)
  have f1: "fg_only pid (jobs ?s1)" using assms(2) by (simp add: emit_def)
  note d = deliver_handled [OF s2(1) f1]
  have e1: "extends s ?s1" by (simp add: extends_def emit_def)
  have e2: "extends ?s1 s'" using d(2) s2(2) by (simp add: handled_def extends_def)
  have ne: "new_events s s' = new_events s ?s1 @ new_events ?s1 s2"
    using new_events_trans [OF e1 e2] s2(2) by (simp add: new_events_def)
  have n1: "new_events s ?s1 = [(Sigsuspend m, mask s)]" by (simp add: new_events_def emit_def)
  show "mask s' = mask s" using s2(2) by simp
  show "extends s s'" by (rule extends_trans [OF e1 e2])
  show "fg_only pid (jobs s')" using d(2) s2(2) by (simp add: handled_def)
  show "suspends (new_events s s') = [m]" using d(2) by (simp add: ne n1 handled_def)
  show "has_fg (jobs s') \<or> stopped_or_ended pid (new_events s s')" if "has_fg (jobs s)"
  proof -
    have j: "jobs s' = jobs s2" using s2(2) by simp
    have "has_fg (jobs ?s1)" using that by (simp add: emit_def)
    with d(2) have "has_fg (jobs s2) \<or> stopped_or_ended pid (new_events ?s1 s2)"
      by (simp add: handled_def)
    then show ?thesis using j by (auto simp add: ne)
  qed
qed

subsection \<open>The waiting loop\<close>

lemma fg_cond_props:
  "jobs (snd (fg_cond pid s)) = jobs s" "mask (snd (fg_cond pid s)) = mask s"
  "extends s (snd (fg_cond pid s))"
  "suspends (new_events s (snd (fg_cond pid s))) = []"
  "reaps (new_events s (snd (fg_cond pid s))) = []"
  by (simp_all add: fg_cond_def Let_def emit_def extends_def new_events_def)

lemma fg_cond_value:
  "fst (fg_cond pid s) \<longleftrightarrow> fg_job (jobs s) \<noteq> 0 \<and> pid = job_get_pid (fg_job (jobs s)) (jobs s)"
  by (simp add: fg_cond_def Let_def emit_def)

lemma fg_cond_fg_only:
  "fg_only pid (jobs s) \<Longrightarrow> fst (fg_cond pid s) \<longleftrightarrow> has_fg (jobs s)"
  using fg_job_pid [of "jobs s" pid] fg_job_zero_iff [of "jobs s"]
  by (auto simp add: fg_cond_value)

lemma wait_fg_returns:
  "wait_fg pid prev as s = Returned s' \<Longrightarrow> fg_only pid (jobs s) \<Longrightarrow>
   extends s s' \<and> mask s' = mask s \<and> fg_only pid (jobs s') \<and> \<not> has_fg (jobs s') \<and>
   (has_fg (jobs s) \<longrightarrow>
      stopped_or_ended pid (new_events s s') \<and> suspends (new_events s s') \<noteq> []) \<and>
   set (suspends (new_events s s')) \<subseteq> {prev}"
proof (induction as arbitrary: s)
  case Nil
  note c = fg_cond_props [where pid = pid and s = s]
  from Nil show ?case
    using c fg_cond_fg_only [OF Nil.prems(2)] by (auto split: if_splits)
next
  case (Cons a as)
  let ?s1 = "snd (fg_cond pid s)"
  note c = fg_cond_props [where pid = pid and s = s]
  show ?case
  proof (cases "fst (fg_cond pid s)")
    case False
    with Cons.prems show ?thesis
      using c fg_cond_fg_only [OF Cons.prems(2)] by (auto split: if_splits)
  next
    case True
    then have h: "has_fg (jobs s)" using fg_cond_fg_only [OF Cons.prems(2)] by simp
    from True Cons.prems(1) obtain s2 where s2: "sigsuspend prev a ?s1 = Some s2"
      "wait_fg pid prev as s2 = Returned s'"
      by (auto split: option.splits)
    have f1: "fg_only pid (jobs ?s1)" using Cons.prems(2) c(1) by simp
    note ss = sigsuspend_handled [OF s2(1) f1]
    note ih = Cons.IH [OF s2(2) ss(3)]
    have e12: "extends s s2" by (rule extends_trans [OF c(3) ss(2)])
    have e: "extends s s'" using extends_trans [OF e12] ih by blast
    have ne: "new_events s s' = new_events s ?s1 @ new_events ?s1 s2 @ new_events s2 s'"
      using new_events_trans [OF e12, of s'] new_events_trans [OF c(3) ss(2)] ih by simp
    have "stopped_or_ended pid (new_events s s')"
    proof (cases "has_fg (jobs s2)")
      case True
      then show ?thesis using ih by (simp add: ne)
    next
      case False
      then show ?thesis using ss(4) h c(1) by (simp add: ne)
    qed
    then show ?thesis
      using e ih ss(1,5) c(2,4) by (simp add: ne)
  qed
qed

lemma free_slot_nth: "free_slot t = Some i \<Longrightarrow> i < length t \<and> jstate (t ! i) = UNDEF"
  by (induction t arbitrary: i) (auto split: if_splits option.splits)

lemma has_fg_updated: "i < length t \<Longrightarrow> jstate x = FG \<Longrightarrow> has_fg (t[i := x])"
  using set_update_memI [of i t x] by (auto simp add: has_fg_def list_ex_iff)

lemma fg_only_first:
  assumes "\<not> has_fg t" "jstate x = FG" "jpid x = pid"
  shows "fg_only pid (t[i := x])"
  using assms set_update_subset_insert [of t i x]
  by (auto simp add: fg_only_def has_fg_def list_all_iff list_ex_iff)

lemma add_job_fg:
  assumes "free_slot t \<noteq> None" "\<not> has_fg t"
  shows "fg_only pid (snd (add_job pid FG cmd t))" "has_fg (snd (add_job pid FG cmd t))"
proof -
  from assms(1) obtain i where i: "free_slot t = Some i" by auto
  note n = free_slot_nth [OF i]
  show "fg_only pid (snd (add_job pid FG cmd t))"
    using i fg_only_first [OF assms(2)] by (simp add: add_job_def)
  show "has_fg (snd (add_job pid FG cmd t))"
    using i n has_fg_updated by (simp add: add_job_def)
qed

lemma job_set_state_fg:
  assumes "job_exists jid t" "jpid (t ! (nat jid - 1)) = pid" "\<not> has_fg t"
  shows "fg_only pid (job_set_state jid FG t)" "has_fg (job_set_state jid FG t)"
proof -
  have i: "nat jid - 1 < length t" using assms(1) by (auto simp add: job_exists_def)
  show "fg_only pid (job_set_state jid FG t)"
    using assms fg_only_first [OF assms(3)] by (simp add: job_set_state_def)
  show "has_fg (job_set_state jid FG t)"
    using assms(1) i has_fg_updated by (simp add: job_set_state_def)
qed

lemma lookup_arg_pid:
  assumes "lookup_arg arg t = Some (jid, pid)"
  shows "job_exists jid t" "jpid (t ! (nat jid - 1)) = pid"
proof -
  show e: "job_exists jid t"
    using assms by (auto simp add: lookup_arg_def Let_def split: if_splits)
  show "jpid (t ! (nat jid - 1)) = pid"
  proof (cases "first_char arg = CHR ''%''")
    case True
    with assms e show ?thesis
      by (auto simp add: lookup_arg_def Let_def job_get_pid_def split: if_splits)
  next
    case False
    with assms have "jid = job_from_pid pid t" "job_exists (job_from_pid pid t) t"
      by (auto simp add: lookup_arg_def Let_def split: if_splits)
    then show ?thesis using job_exists_from_pid(2) by simp
  qed
qed

lemma wait_then_restore_returns:
  assumes r: "wait_then_restore pid prev as s3 = Returned s'"
    and f: "fg_only pid (jobs s3)" "has_fg (jobs s3)"
    and e: "extends s s3" "suspends (new_events s s3) = []"
  shows "stopped_or_ended pid (new_events s s')" "suspends (new_events s s') \<noteq> []"
    "set (suspends (new_events s s')) = {prev}" "mask s' = prev" "fg_job (jobs s') = 0"
proof -
  from r obtain s4 where s4: "wait_fg pid prev as s3 = Returned s4"
    "s' = sigprocmask SIG_SETMASK prev s4"
    by (auto simp add: wait_then_restore_def split: outcome.splits)
  from wait_fg_returns [OF s4(1) f(1)] f(2)
  have w: "extends s3 s4" "\<not> has_fg (jobs s4)" "stopped_or_ended pid (new_events s3 s4)"
    "suspends (new_events s3 s4) \<noteq> []" "set (suspends (new_events s3 s4)) \<subseteq> {prev}"
    by simp_all
  have t: "trace s' = trace s4 @ [(Sigprocmask SIG_SETMASK prev, mask s4)]"
    using s4(2) by (simp add: prim_defs)
  have e4: "extends s s4" by (rule extends_trans [OF e(1) w(1)])
  have ne: "new_events s s'
      = new_events s s3 @ new_events s3 s4 @ [(Sigprocmask SIG_SETMASK prev, mask s4)]"
    using new_events_after [OF e4 t] new_events_trans [OF e(1) w(1)] by simp
  show "stopped_or_ended pid (new_events s s')" using w(3) by (simp add: ne)
  show "suspends (new_events s s') \<noteq> []" using w(4) by (simp add: ne)
  show "set (suspends (new_events s s')) = {prev}"
    using w(4,5) e(2) by (cases "suspends (new_events s3 s4)") (auto simp add: ne)
  show "mask s' = prev" using s4(2) by (simp add: prim_defs)
  show "fg_job (jobs s') = 0" using w(2) s4(2) by (simp add: fg_job_zero_iff prim_defs)
qed

lemma run_facts:
  "is_returned (eval PARSELINE_FG sleep5 ''/bin/sleep 5'' [] full_st)"
  "\<not> stopped_or_ended 100
      (new_events full_st (state_of (eval PARSELINE_FG sleep5 ''/bin/sleep 5'' [] full_st)))"
  "suspends
      (new_events full_st (state_of (eval PARSELINE_FG sleep5 ''/bin/sleep 5'' [] full_st))) = []"
  "fg_job (jobs full_st) = 0" "free_slot (jobs full_st) = None" "length (jobs full_st) = MAXJOBS"
  "is_returned (eval PARSELINE_FG sleep5 ''/bin/sleep 5''
      [(SIGINT, []), (SIGCHLD, [(100, WSignaled 2)])] st0)"
  "is_returned (eval PARSELINE_FG fg_job1 ''fg %1'' [(SIGCHLD, [(12, WExited 0)])] st12)"
  "free_slot (jobs st0) \<noteq> None" "fg_job (jobs st0) = 0" "fg_job (jobs st12) = 0"
  by code_simp+

lemma is_returned_state: "is_returned out \<Longrightarrow> out = Returned (state_of out)"
  by (cases out) simp_all

subsection \<open>Every call extends the trace\<close>

lemma handler_extends:
  "extends s (sigint_handler s)" "extends s (sigtstp_handler s)"
  "sigchld_handler s = Some s' \<Longrightarrow> extends s s'"
proof -
  show "extends s (sigint_handler s)"
    by (simp add: sigint_handler_def Let_def prim_defs extends_def)
  show "extends s (sigtstp_handler s)"
    by (simp add: sigtstp_handler_def Let_def prim_defs extends_def)
  assume h: "sigchld_handler s = Some s'"
  from reap_loop_props [of s] obtain r where "reap_loop s = Some r" "extends s r" by blast
  with h show "extends s s'" by (auto simp add: sigchld_handler_def extends_def)
qed

lemma deliver_extends: "deliver a s = Some s' \<Longrightarrow> extends s s'"
proof -
  assume d: "deliver a s = Some s'"
  let ?s1 = "(emit (Handler (fst a)) s)
                 \<lparr>mask := mask s OR sig_bit (fst a), pending := pending s @ snd a\<rparr>"
  have e1: "extends s ?s1" by (simp add: extends_def emit_def)
  from d obtain s2 where s2: "s' = s2\<lparr>mask := mask s\<rparr>"
    "(if fst a = SIGCHLD then sigchld_handler ?s1
      else if fst a = SIGINT then Some (sigint_handler ?s1)
      else if fst a = SIGTSTP then Some (sigtstp_handler ?s1)
      else Some ?s1) = Some s2"
    by (auto simp add: deliver_def Let_def split: option.splits)
  have "extends ?s1 s2"
    using s2(2) handler_extends [of ?s1] by (auto split: if_splits)
  then have "extends ?s1 s'" using s2(1) by (simp add: extends_def)
  with e1 show ?thesis by (rule extends_trans)
qed

lemma sigsuspend_extends: "sigsuspend m a s = Some s' \<Longrightarrow> extends s s'"
proof -
  assume a: "sigsuspend m a s = Some s'"
  let ?s1 = "(emit (Sigsuspend m) s)\<lparr>mask := m\<rparr>"
  from a obtain s2 where s2: "deliver a ?s1 = Some s2"
    "s' = s2\<lparr>mask := mask s, errno := EINTR\<rparr>"
    by (auto simp add: sigsuspend_def Let_def split: option.splits)
  have "extends s ?s1" by (simp add: extends_def emit_def)
  moreover have "extends ?s1 s'" using deliver_extends [OF s2(1)] s2(2) by (simp add: extends_def)
  ultimately show ?thesis by (rule extends_trans)
qed

lemma wait_fg_extends: "extends s (state_of (wait_fg pid prev as s))"
proof (induction as arbitrary: s)
  case Nil
  have "extends (snd (fg_cond pid s)) (emit (Sigsuspend prev) (snd (fg_cond pid s)))"
    by (simp add: extends_def emit_def)
  then show ?case
    using fg_cond_props(3) [where pid = pid and s = s] extends_trans by auto
next
  case (Cons a as)
  note c = fg_cond_props(3) [where pid = pid and s = s]
  show ?case
  proof (cases "fst (fg_cond pid s)")
    case False
    then show ?thesis using c by simp
  next
    case True
    show ?thesis
    proof (cases "sigsuspend prev a (snd (fg_cond pid s))")
      case None
      then show ?thesis using True c by simp
    next
      case (Some s1)
      have "extends s s1" by (rule extends_trans [OF c sigsuspend_extends [OF Some]])
      then show ?thesis using True Some Cons.IH [of s1] extends_trans by auto
    qed
  qed
qed

lemma wait_then_restore_extends: "extends s (state_of (wait_then_restore pid prev as s))"
proof (cases "wait_fg pid prev as s")
  case (Returned s1)
  then have "extends s s1" using wait_fg_extends [of s pid prev as] by simp
  then show ?thesis using Returned
    by (auto simp add: wait_then_restore_def prim_defs extends_append)
qed (use wait_fg_extends [of s pid prev as] in \<open>simp_all add: wait_then_restore_def\<close>)

lemma st0_slot: "free_slot (jobs st0) = Some 0"
  by code_simp

subsection \<open>No job is in the foreground between commands\<close>

text \<open>
  A call of \<open>eval\<close> that is entered with no job in the foreground and returns leaves no
  job in the foreground, whatever the command; the initial job list has none
  (\<open>table_facts\<close>). So the condition holds each time the read/eval loop calls \<open>eval\<close>.
\<close>

lemma has_fg_set_bg: "has_fg (job_set_state jid BG t) \<Longrightarrow> has_fg t"
proof -
  assume h: "has_fg (job_set_state jid BG t)"
  show ?thesis
  proof (cases "job_exists jid t")
    case True
    let ?x = "(t ! (nat jid - 1))\<lparr>jstate := BG\<rparr>"
    from h True obtain j where j: "j \<in> set (t[nat jid - 1 := ?x])" "jstate j = FG"
      by (auto simp add: job_set_state_def has_fg_def list_ex_iff)
    with set_update_subset_insert [of t "nat jid - 1" ?x] have "j \<in> set t" by auto
    with j(2) show ?thesis by (auto simp add: has_fg_def list_ex_iff)
  next
    case False
    with h show ?thesis by (simp add: job_set_state_def)
  qed
qed

lemma has_fg_add_bg: "has_fg (snd (add_job pid BG cmd t)) \<Longrightarrow> has_fg t"
proof (cases "free_slot t")
  case None
  then show "has_fg (snd (add_job pid BG cmd t)) \<Longrightarrow> has_fg t" by (simp add: add_job_def)
next
  case (Some i)
  assume h: "has_fg (snd (add_job pid BG cmd t))"
  let ?x = "\<lparr>jpid = pid, jstate = BG, jcmdline = cmd\<rparr>"
  from h Some obtain j where j: "j \<in> set (t[i := ?x])" "jstate j = FG"
    by (auto simp add: add_job_def has_fg_def list_ex_iff)
  with set_update_subset_insert [of t i ?x] have "j \<in> set t" by auto
  with j(2) show "has_fg t" by (auto simp add: has_fg_def list_ex_iff)
qed

lemma fg_only_add_fg: "\<not> has_fg t \<Longrightarrow> fg_only pid (snd (add_job pid FG cmd t))"
proof (cases "free_slot t")
  case None
  then show "\<not> has_fg t \<Longrightarrow> fg_only pid (snd (add_job pid FG cmd t))"
    by (auto simp add: add_job_def fg_only_def has_fg_def list_all_iff list_ex_iff)
next
  case (Some i)
  assume "\<not> has_fg t"
  from fg_only_first [OF this] Some show "fg_only pid (snd (add_job pid FG cmd t))"
    by (simp add: add_job_def)
qed

lemma wait_then_restore_no_fg:
  assumes "wait_then_restore pid prev as s = Returned s'" "fg_only pid (jobs s)"
  shows "fg_job (jobs s') = 0"
proof -
  from assms(1) obtain s4 where s4: "wait_fg pid prev as s = Returned s4"
    "s' = sigprocmask SIG_SETMASK prev s4"
    by (auto simp add: wait_then_restore_def split: outcome.splits)
  from wait_fg_returns [OF s4(1) assms(2)] have "\<not> has_fg (jobs s4)" by simp
  then show ?thesis using s4(2) by (simp add: fg_job_zero_iff prim_defs)
qed

lemma child_not_returned: "child tok prev s \<noteq> Returned s'"
  by (auto simp add: child_def Let_def split: option.splits prod.splits)

lemma eval_keeps_no_foreground:
  assumes nf: "fg_job (jobs s) = 0" and r: "eval parse_result tok cmdline as s = Returned s'"
  shows "fg_job (jobs s') = 0"
proof -
  have nh: "\<not> has_fg (jobs s)" using nf by (simp add: fg_job_zero_iff)
  consider (skip) "parse_result = PARSELINE_ERROR \<or> parse_result = PARSELINE_EMPTY"
    | (ext) "parse_result \<noteq> PARSELINE_ERROR" "parse_result \<noteq> PARSELINE_EMPTY"
        "builtin tok = BUILTIN_NONE"
    | (quit) "parse_result \<noteq> PARSELINE_ERROR" "parse_result \<noteq> PARSELINE_EMPTY"
        "builtin tok = BUILTIN_QUIT"
    | (jobs) "parse_result \<noteq> PARSELINE_ERROR" "parse_result \<noteq> PARSELINE_EMPTY"
        "builtin tok = BUILTIN_JOBS"
    | (bgfg) "parse_result \<noteq> PARSELINE_ERROR" "parse_result \<noteq> PARSELINE_EMPTY"
        "builtin tok = BUILTIN_BG \<or> builtin tok = BUILTIN_FG"
    by (cases "builtin tok") auto
  then show ?thesis
  proof cases
    case skip
    with r nf show ?thesis by (auto simp add: eval_def)
  next
    case quit
    with r show ?thesis by (simp add: eval_def)
  next
    case jobs
    with r have "jobs s' = jobs s"
      by (auto simp add: eval_def builtin_jobs_def Let_def prim_defs split: option.splits)
    with nf show ?thesis by simp
  next
    case ext
    let ?s2 = "emit (Fork (fork_ret s)) (sigprocmask SIG_BLOCK mask_all s)"
    have ev: "eval parse_result tok cmdline as s =
        (if fork_ret s = 0 then child tok (mask s) ?s2
         else parent parse_result cmdline (fork_ret s) (mask s) as ?s2)"
      using ext by (simp add: eval_def external_def Let_def prim_defs)
    have p: "fork_ret s \<noteq> 0"
      "parent parse_result cmdline (fork_ret s) (mask s) as ?s2 = Returned s'"
      using r ev child_not_returned by (auto split: if_splits)
    have j2: "jobs ?s2 = jobs s" by (simp add: prim_defs)
    show ?thesis
    proof (cases parse_result)
      case PARSELINE_FG
      let ?s3 = "do_add_job (fork_ret s) FG cmdline ?s2"
      have "fg_only (fork_ret s) (jobs ?s3)"
        using fg_only_add_fg [OF nh] by (simp add: prim_defs)
      moreover have "wait_then_restore (fork_ret s) (mask s) as ?s3 = Returned s'"
        using p(2) PARSELINE_FG by (simp add: parent_def)
      ultimately show ?thesis using wait_then_restore_no_fg by blast
    next
      case PARSELINE_BG
      with p(2) have "jobs s' = snd (add_job (fork_ret s) BG cmdline (jobs s))"
        by (auto simp add: parent_def Let_def prim_defs)
      then show ?thesis using has_fg_add_bg nh by (auto simp add: fg_job_zero_iff)
    qed (use ext in simp_all)
  next
    case bgfg
    note early = eval_bg_fg_early [OF bgfg, where s = s and cmdline = cmdline and as = as]
    show ?thesis
    proof (cases "argc tok = 1")
      case True
      from early [OF resolve_missing [OF True]] r nf show ?thesis
        by (auto simp add: prim_defs)
    next
      case False
      note a1 = False
      show ?thesis
      proof (cases "good_shape (argument tok)")
        case False
        from early [OF resolve_shape [OF a1 False]] r nf show ?thesis
          by (auto simp add: prim_defs)
      next
        case True
        note a2 = True
        show ?thesis
        proof (cases "lookup_arg (argument tok) (jobs s)")
          case None
          from resolve_not_found [OF a1 a2 None, where name = "command_name tok" and prev = "mask s"]
          obtain s2 where "resolve (command_name tok) tok (mask s)
              (sigprocmask SIG_BLOCK mask_all s) = Inl s2" "jobs s2 = jobs s" by blast
          with early r nf show ?thesis by auto
        next
          case (Some jp)
          obtain jid pid where jp: "jp = (jid, pid)" by (cases jp)
          note a3 = Some [unfolded jp]
          from bgfg(3) show ?thesis
          proof
            assume b: "builtin tok = BUILTIN_BG"
            from bg_resolved [OF bgfg(1,2) b a1 a2 a3, where cmdline = cmdline and as = as] r
            have "jobs s' = job_set_state jid BG (jobs s)" by auto
            then show ?thesis using has_fg_set_bg nh by (auto simp add: fg_job_zero_iff)
          next
            assume b: "builtin tok = BUILTIN_FG"
            from resolve_found [OF a1 a2 a3, where name = "''fg''" and prev = "mask s"]
            obtain s1 where s1: "resolve ''fg'' tok (mask s)
                (sigprocmask SIG_BLOCK mask_all s) = Inr (jid, pid, s1)"
              and p: "extends s s1" "jobs s1 = jobs s" "mask s1 = mask_all"
                "prints (new_events s s1) = []" "kills (new_events s s1) = []"
                "suspends (new_events s s1) = []"
              by blast
            let ?s4 = "do_job_set_state jid FG (kill (- pid) SIGCONT s1)"
            have ev: "eval parse_result tok cmdline as s
                = wait_then_restore pid (mask s) as ?s4"
              using bgfg(1,2) b s1 by (simp add: eval_def builtin_fg_def Let_def)
            note fgf = fg_found [OF p, where jid = jid and pid = pid]
            have "fg_only pid (jobs ?s4)"
              using job_set_state_fg(1) [OF lookup_arg_pid [OF a3] nh] by (simp add: fgf(3))
            then show ?thesis using r ev wait_then_restore_no_fg by metis
          qed
        qed
      qed
    qed
  qed
qed

lemma lookup_arg_digit:
  assumes "isdigit (first_char arg)"
  shows "lookup_arg arg t =
     (if job_exists (job_from_pid (to_int (min LONG_MAX (numeric_prefix arg))) t) t
      then Some (job_from_pid (to_int (min LONG_MAX (numeric_prefix arg))) t,
                 to_int (min LONG_MAX (numeric_prefix arg)))
      else None)"
proof -
  have "first_char arg \<noteq> CHR ''%''" using assms percent_not_digit by auto
  then show ?thesis
    using strtol_plain [OF plain_digit [OF assms]] by (simp add: lookup_arg_def Let_def)
qed

lemma lookup_arg_percent:
  assumes "first_char arg = CHR ''%''"
  shows "lookup_arg arg t =
     (if job_exists (to_int (strtol (tl arg))) t
      then Some (to_int (strtol (tl arg)), job_get_pid (to_int (strtol (tl arg))) t)
      else None)"
  using assms by (simp add: lookup_arg_def Let_def)

lemma bg_fg_not_found:
  assumes "parse_result \<noteq> PARSELINE_ERROR" "parse_result \<noteq> PARSELINE_EMPTY"
    and "builtin tok = BUILTIN_BG \<or> builtin tok = BUILTIN_FG"
    and a: "argc tok \<noteq> 1" "good_shape (argument tok)" "lookup_arg (argument tok) (jobs s) = None"
  shows "\<exists>s'. eval parse_result tok cmdline as s = Returned s' \<and>
          prints (new_events s s') = [argument tok @ '': No such job'' @ nl] \<and>
          jobs s' = jobs s \<and> kills (new_events s s') = [] \<and> mask s' = mask s"
  using resolve_not_found [OF a, where name = "command_name tok" and prev = "mask s"]
    eval_bg_fg_early [OF assms(1-3)]
  by blast

lemma fg_resolved:
  assumes "parse_result \<noteq> PARSELINE_ERROR" "parse_result \<noteq> PARSELINE_EMPTY"
    and b: "builtin tok = BUILTIN_FG"
    and a: "argc tok \<noteq> 1" "good_shape (argument tok)"
      "lookup_arg (argument tok) (jobs s) = Some (jid, pid)"
  shows "\<exists>s1. eval parse_result tok cmdline as s = wait_then_restore pid (mask s) as s1 \<and>
             kills (new_events s s1) = [(- pid, SIGCONT)] \<and>
             prints (new_events s s1) = [] \<and>
             jobs s1 = job_set_state jid FG (jobs s) \<and>
             suspends (new_events s s1) = [] \<and> mask s1 = mask_all"
proof -
  from resolve_found [OF a, where name = "''fg''" and prev = "mask s"]
  obtain s1 where s1:
    "resolve ''fg'' tok (mask s) (sigprocmask SIG_BLOCK mask_all s) = Inr (jid, pid, s1)"
    and p: "extends s s1" "jobs s1 = jobs s" "mask s1 = mask_all"
      "prints (new_events s s1) = []" "kills (new_events s s1) = []"
      "suspends (new_events s s1) = []"
    by blast
  let ?s4 = "do_job_set_state jid FG (kill (- pid) SIGCONT s1)"
  have ev: "eval parse_result tok cmdline as s = wait_then_restore pid (mask s) as ?s4"
    using assms(1,2) b s1 by (simp add: eval_def builtin_fg_def Let_def)
  have t: "trace ?s4 = trace s1 @ [(Kill (- pid) SIGCONT, mask_all), (JobSetState jid FG, mask_all)]"
    using p(3) by (simp add: prim_defs Let_def)
  have "prints (new_events s ?s4) = []"
    using p(4) by (simp add: new_events_after [OF p(1) t])
  with ev fg_found(1-4) [OF p, where jid = jid and pid = pid] show ?thesis by blast
qed

lemma big_facts:
  "numeric_prefix ''4294967308'' = 4294967308" "good_shape ''4294967308''"
  "lookup_arg ''4294967308'' job12_table = Some (1, 12)"
  "takeWhile isdigit ''+1'' = []" "numeric_prefix ''+1'' = 0" "good_shape ''%+1''"
  "lookup_arg ''%+1'' job12_table = Some (1, 12)"
  "isdigit (first_char ''99x'')" "to_int (min LONG_MAX (numeric_prefix ''99x'')) = 99"
  "job_from_pid 99 job12_table = 0" "\<not> job_exists 0 job12_table"
  "to_int (min LONG_MAX (numeric_prefix ''12abc'')) = 12"
  "to_int (strtol ''1x'') = 1"
  "jstate (job_set_state 1 FG job12_table ! 0) = FG"
  "\<not> isdigit CHR ''+''"
  by code_simp+

lemma witness_facts:
  "isdigit (first_char ''12abc'')" "to_int (min LONG_MAX (numeric_prefix ''12abc'')) = 12"
  "job_from_pid 12 job12_table = 1" "job_exists 1 job12_table"
  "first_char ''%1x'' = CHR ''%''" "to_int (strtol ''1x'') = 1" "job_get_pid 1 job12_table = 12"
  "isdigit (first_char ''99x'')" "to_int (min LONG_MAX (numeric_prefix ''99x'')) = 99"
  "job_from_pid 99 job12_table = 0" "\<not> job_exists 0 job12_table"
  "job_get_cmdline 1 job12_table = ''/bin/sleep 5''" "show_int 1 = ''1''" "show_int 12 = ''12''"
  "jstate (job_set_state 1 BG job12_table ! 0) = BG"
  "jstate (job_set_state 1 FG job12_table ! 0) = FG"
  by code_simp+

lemma full_facts:
  "job_from_pid 100
     (jobs (state_of (eval PARSELINE_FG sleep5 ''/bin/sleep 5'' [] full_st))) = 0"
  "fg_job (jobs (state_of (eval PARSELINE_FG sleep5 ''/bin/sleep 5'' [] full_st))) = 0"
  "job_from_pid 100
     (jobs (state_of (eval PARSELINE_BG sleep5 ''/bin/sleep 5 &'' [] full_st))) = 0"
  "prints (new_events full_st
     (state_of (eval PARSELINE_BG sleep5 ''/bin/sleep 5 &'' [] full_st)))
     = [''[0] (100) /bin/sleep 5 &'' @ nl]"
  by code_simp+

section \<open>The claims\<close>

subsection \<open>C5: forwarding of the interrupt and stop signals\<close>

text \<open>
  C5. \<open>sigint_handler\<close> and \<open>sigtstp_handler\<close> each send their signal (SIGINT, SIGTSTP) to
  the process group of the foreground job, that is to the negated process id of that job,
  when there is a foreground job. When there is none they send no signal. In both cases
  the job list is left as it was.
\<close>

theorem handlers_forward_to_foreground_group:
  "(fg_job (jobs s) \<noteq> 0 \<longrightarrow>
      kills (new_events s (sigint_handler s))
        = [(- job_get_pid (fg_job (jobs s)) (jobs s), SIGINT)] \<and>
      kills (new_events s (sigtstp_handler s))
        = [(- job_get_pid (fg_job (jobs s)) (jobs s), SIGTSTP)]) \<and>
   (fg_job (jobs s) = 0 \<longrightarrow>
      kills (new_events s (sigint_handler s)) = [] \<and>
      kills (new_events s (sigtstp_handler s)) = []) \<and>
   jobs (sigint_handler s) = jobs s \<and> jobs (sigtstp_handler s) = jobs s"
  by (simp add: sigint_handler_def sigtstp_handler_def Let_def prim_defs new_events_def)

theorem handlers_forward_to_foreground_group_witness:
  "kills (new_events (st0\<lparr>jobs := fg_table\<rparr>) (sigint_handler (st0\<lparr>jobs := fg_table\<rparr>)))
     = [(- 100, 2)] \<and>
   kills (new_events (st0\<lparr>jobs := fg_table\<rparr>) (sigtstp_handler (st0\<lparr>jobs := fg_table\<rparr>)))
     = [(- 100, 20)] \<and>
   kills (new_events st0 (sigint_handler st0)) = [] \<and>
   kills (new_events st0 (sigtstp_handler st0)) = []"
  using handlers_forward_to_foreground_group [of "st0\<lparr>jobs := fg_table\<rparr>"]
    handlers_forward_to_foreground_group [of st0]
  by (simp add: st0_def table_facts SIGINT_def SIGTSTP_def)

subsection \<open>C8: the mode of output redirection\<close>

text \<open>
  C8 as stated (the file is created with read and write for the owner only, group and
  other denied all access) fails: \<open>jobs > out\<close> creates the file with mode 0644, which
  gives group and other read access.
\<close>

theorem output_mode_counterexample:
  "\<not> list_all (\<lambda>c. owner_only (snd (snd c)))
       (creations (trace (state_of (eval PARSELINE_FG jobs_to_file ''jobs > out'' [] st0))))"
  by (simp add: eval_def jobs_to_file_def st0_def builtin_jobs_def Let_def prim_defs
      owner_only_def flag_defs mode_defs)

text \<open>
  C8, amended. Output redirection, in the \<open>jobs\<close> built-in and in the child of an
  external command (once input redirection, if any, has succeeded), opens the file with
  \<open>O_CREAT | O_TRUNC | O_WRONLY\<close> and mode \<open>MODE\<close>, which is 0644: read and write for the
  owner, read for group and other, and neither write nor execute for group and other.
\<close>

theorem output_redirection_mode:
  assumes "parse_result \<noteq> PARSELINE_ERROR" and "parse_result \<noteq> PARSELINE_EMPTY"
    and "outfile tok = Some f"
    and "builtin tok = BUILTIN_JOBS \<or>
         (builtin tok = BUILTIN_NONE \<and> fork_ret s = 0 \<and>
          (case infile tok of None \<Rightarrow> True | Some g \<Rightarrow> open_errno s g O_RDONLY = 0))"
  shows "creations (new_events s (state_of (eval parse_result tok cmdline as s)))
           = [(f, O_CREAT OR O_TRUNC OR O_WRONLY, MODE)] \<and>
         MODE = 420 \<and>
         MODE AND (S_IRUSR OR S_IWUSR) = (S_IRUSR OR S_IWUSR) \<and>
         MODE AND (S_IRGRP OR S_IROTH) = (S_IRGRP OR S_IROTH) \<and>
         MODE AND (S_IXUSR OR S_IWGRP OR S_IXGRP OR S_IWOTH OR S_IXOTH) = 0"
proof -
  have bits: "MODE = 420 \<and>
         MODE AND (S_IRUSR OR S_IWUSR) = (S_IRUSR OR S_IWUSR) \<and>
         MODE AND (S_IRGRP OR S_IROTH) = (S_IRGRP OR S_IROTH) \<and>
         MODE AND (S_IXUSR OR S_IWGRP OR S_IXGRP OR S_IWOTH OR S_IXOTH) = 0"
    by (simp add: mode_defs)
  from assms(4) have "creations (new_events s (state_of (eval parse_result tok cmdline as s)))
           = [(f, O_CREAT OR O_TRUNC OR O_WRONLY, MODE)]"
  proof
    assume "builtin tok = BUILTIN_JOBS"
    with assms(1-3) show ?thesis
      by (simp add: eval_def builtin_jobs_def Let_def prim_defs new_events_def flag_defs)
  next
    assume "builtin tok = BUILTIN_NONE \<and> fork_ret s = 0 \<and>
          (case infile tok of None \<Rightarrow> True | Some g \<Rightarrow> open_errno s g O_RDONLY = 0)"
    with assms(1-3) show ?thesis
      by (auto simp add: eval_def external_def child_def Let_def prim_defs new_events_def
          flag_defs split: option.splits)
  qed
  with bits show ?thesis by simp
qed

theorem output_redirection_mode_witness:
  "creations (new_events st0 (state_of (eval PARSELINE_FG jobs_to_file ''jobs > out'' [] st0)))
     = [(''out'', 577, 420)] \<and>
   creations (new_events (st0\<lparr>fork_ret := 0\<rparr>)
       (state_of (eval PARSELINE_FG ls_to_file ''/bin/ls > out'' [] (st0\<lparr>fork_ret := 0\<rparr>))))
     = [(''out'', 577, 420)]"
  using output_redirection_mode [of PARSELINE_FG jobs_to_file "''out''" st0 "''jobs > out''" "[]"]
    output_redirection_mode [of PARSELINE_FG ls_to_file "''out''" "st0\<lparr>fork_ret := 0\<rparr>"
      "''/bin/ls > out''" "[]"]
  by (simp add: jobs_to_file_def ls_to_file_def st0_def flag_defs)

subsection \<open>C6: \<open>errno\<close> and the signal mask across the handlers\<close>

text \<open>
  C6. Each of the three handlers returns (the child-status handler included: its result
  is \<open>Some\<close>) with \<open>errno\<close> as it was on entry, although \<open>waitpid\<close> and \<open>kill\<close> may have
  set it in between; every job list call it made was made with all signals blocked; and
  the signal mask on return is the mask on entry.
\<close>

theorem handlers_preserve_errno_and_mask:
  "(\<exists>s'. sigchld_handler s = Some s' \<and> errno s' = errno s \<and> mask s' = mask s \<and>
         table_ops_blocked (new_events s s')) \<and>
   errno (sigint_handler s) = errno s \<and> mask (sigint_handler s) = mask s \<and>
   table_ops_blocked (new_events s (sigint_handler s)) \<and>
   errno (sigtstp_handler s) = errno s \<and> mask (sigtstp_handler s) = mask s \<and>
   table_ops_blocked (new_events s (sigtstp_handler s))"
proof -
  obtain s' where "reap_loop s = Some s'" "mask s' = mask s"
      "table_ops_blocked (new_events s s')"
    using reap_loop_props by blast
  then have "sigchld_handler s = Some (s'\<lparr>errno := errno s\<rparr>) \<and>
      mask (s'\<lparr>errno := errno s\<rparr>) = mask s \<and>
      table_ops_blocked (new_events s (s'\<lparr>errno := errno s\<rparr>))"
    by (simp add: sigchld_handler_def new_events_def)
  then have "\<exists>s'. sigchld_handler s = Some s' \<and> errno s' = errno s \<and> mask s' = mask s \<and>
         table_ops_blocked (new_events s s')"
    by (intro exI [of _ "s'\<lparr>errno := errno s\<rparr>"]) simp
  moreover have "errno (sigint_handler s) = errno s \<and> mask (sigint_handler s) = mask s \<and>
      table_ops_blocked (new_events s (sigint_handler s))"
    by (simp add: sigint_handler_def Let_def prim_defs new_events_def)
  moreover have "errno (sigtstp_handler s) = errno s \<and> mask (sigtstp_handler s) = mask s \<and>
      table_ops_blocked (new_events s (sigtstp_handler s))"
    by (simp add: sigtstp_handler_def Let_def prim_defs new_events_def)
  ultimately show ?thesis by simp
qed

theorem handlers_preserve_errno_and_mask_witness:
  "(\<exists>s'. sigchld_handler busy = Some s' \<and> errno s' = 5 \<and> mask s' = 1 \<and>
         table_ops_blocked (new_events busy s')) \<and>
   errno (sigint_handler busy) = 5 \<and> mask (sigint_handler busy) = 1 \<and>
   table_ops_blocked (new_events busy (sigint_handler busy)) \<and>
   errno (sigtstp_handler busy) = 5 \<and> mask (sigtstp_handler busy) = 1 \<and>
   table_ops_blocked (new_events busy (sigtstp_handler busy))"
  using handlers_preserve_errno_and_mask [of busy]
  by (simp add: busy_def st0_def)

subsection \<open>C9: failures in the child\<close>

text \<open>
  C9 as stated (every failure of the launch is reported, never silently) fails: when
  \<open>execve\<close> fails with an error other than \<open>ENOENT\<close> and \<open>EACCES\<close>, here \<open>ENOEXEC\<close>, the
  child leaves with status 0 and has printed nothing.
\<close>

theorem silent_failure_counterexample:
  "exec_errno in_child (program notes_txt) = 8 \<and>
   eval PARSELINE_FG notes_txt ''./notes.txt'' [] in_child
     = Exited 0 (in_child\<lparr>errno := 8, trace :=
          [(Sigprocmask SIG_BLOCK mask_all, 0), (Fork 0, mask_all),
           (Sigprocmask SIG_SETMASK 0, mask_all), (Setpgid 0 0, 0),
           (Execve ''./notes.txt'' [''./notes.txt''], 0), (Exit 0, 0)]\<rparr>) \<and>
   prints (new_events in_child
      (state_of (eval PARSELINE_FG notes_txt ''./notes.txt'' [] in_child))) = []"
  by (simp add: in_child_def st0_def notes_txt_def program_def eval_def external_def child_def
      Let_def prim_defs new_events_def)

text \<open>
  C9, amended. Whenever the launch fails in the child (the input file cannot be opened,
  the output file cannot be opened, or \<open>execve\<close> fails) the child leaves at once through
  \<open>_exit(0)\<close> and the target program does not run (after a failed \<open>open\<close>, \<open>execve\<close> is
  not even called). Before leaving it prints \<open><name>: No such file or directory\<close> when
  the error is \<open>ENOENT\<close>, \<open><name>: Permission denied\<close> when it is \<open>EACCES\<close>, and nothing for
  any other error.
\<close>

theorem child_failure_exits_zero:
  assumes "parse_result = PARSELINE_FG \<or> parse_result = PARSELINE_BG"
    and "builtin tok = BUILTIN_NONE" and "fork_ret s = 0" and "e \<noteq> 0"
  shows "(infile tok = Some f \<and> open_errno s f O_RDONLY = e \<longrightarrow>
            (\<exists>s'. eval parse_result tok cmdline as s = Exited 0 s' \<and>
                   prints (new_events s s') = diagnostic f e \<and>
                   execs (new_events s s') = [])) \<and>
         (input_ok tok s \<and> outfile tok = Some f \<and>
            open_errno s f (O_CREAT OR O_TRUNC OR O_WRONLY) = e \<longrightarrow>
            (\<exists>s'. eval parse_result tok cmdline as s = Exited 0 s' \<and>
                   prints (new_events s s') = diagnostic f e \<and>
                   execs (new_events s s') = [])) \<and>
         (input_ok tok s \<and> output_ok tok s \<and> exec_errno s (program tok) = e \<longrightarrow>
            (\<exists>s'. eval parse_result tok cmdline as s = Exited 0 s' \<and>
                   prints (new_events s s') = diagnostic (program tok) e \<and>
                   execs (new_events s s') = [program tok]))"
  using assms
  by (auto simp add: eval_def external_def child_def Let_def prim_defs new_events_def
      diagnostic_def input_ok_def output_ok_def program_def ENOENT_def EACCES_def
      split: option.splits)

theorem child_failure_exits_zero_witness:
  "(\<exists>s'. eval PARSELINE_FG cat_secret ''/bin/cat < secret'' [] in_child = Exited 0 s' \<and>
         prints (new_events in_child s') = [''secret: Permission denied'' @ nl] \<and>
         execs (new_events in_child s') = []) \<and>
   (\<exists>s'. eval PARSELINE_FG ls_to_tmp ''/bin/ls > /tmp'' [] in_child = Exited 0 s' \<and>
         prints (new_events in_child s') = [] \<and>
         execs (new_events in_child s') = []) \<and>
   (\<exists>s'. eval PARSELINE_BG missing ''./nonexistent &'' [] in_child = Exited 0 s' \<and>
         prints (new_events in_child s') = [''./nonexistent: No such file or directory'' @ nl] \<and>
         execs (new_events in_child s') = [''./nonexistent''])"
  using child_failure_exits_zero [of PARSELINE_FG cat_secret in_child 13 "''secret''"
      "''/bin/cat < secret''" "[]"]
    child_failure_exits_zero [of PARSELINE_FG ls_to_tmp in_child 21 "''/tmp''"
      "''/bin/ls > /tmp''" "[]"]
    child_failure_exits_zero [of PARSELINE_BG missing in_child 2 "''/tmp''"
      "''./nonexistent &''" "[]"]
  by (simp add: cat_secret_def ls_to_tmp_def missing_def in_child_def st0_def diagnostic_def
      input_ok_def output_ok_def program_def ENOENT_def EACCES_def flag_defs)

subsection \<open>C3: the child-status handler\<close>



subsection \<open>C4: a continued child\<close>

text \<open>
  C4. The handler has a branch that sets the job of a continued child to \<open>FG\<close>, but its
  \<open>waitpid\<close> call asks for \<open>WNOHANG | WUNTRACED\<close> without \<open>WCONTINUED\<close>, so a continued
  child is never reported and the branch never runs. With job 1 (process 100) stopped and
  the continuation of process 100 pending, the handler returns with the job list
  unchanged: job 1 is still stopped, there is no foreground job, and the continuation is
  still pending.
\<close>

theorem continued_child_not_observed:
  "map_option jobs (sigchld_handler continued_st) = Some stopped_table \<and>
   map_option pending (sigchld_handler continued_st) = Some [(100, WContinued)] \<and>
   map_option (\<lambda>s. new_events continued_st s) (sigchld_handler continued_st)
     = Some [(Waitpid (WNOHANG OR WUNTRACED) (- 1) None, 0)] \<and>
   job_get_pid 1 stopped_table = 100 \<and> fg_job stopped_table = 0"
proof -
  have "reap_loop continued_st
      = Some ((emit (Waitpid (WNOHANG OR WUNTRACED) (- 1) None) continued_st)\<lparr>errno := 10\<rparr>)"
    by (subst reap_loop.simps)
      (simp add: waitpid_def continued_st_def st0_def WNOHANG_def WUNTRACED_def WCONTINUED_def)
  then show ?thesis
    by (simp add: sigchld_handler_def emit_def continued_st_def st0_def new_events_def
        stopped_table_facts)
qed

subsection \<open>C7: the arguments of \<open>bg\<close> and \<open>fg\<close>\<close>




subsection \<open>C10: only the first character of the argument is inspected\<close>

text \<open>
  C10 as stated (the longest leading numeric prefix is taken as the process id, the
  numeric prefix after \<open>%\<close> as the job id) fails where \<open>strtol\<close> and the conversion to the
  32-bit \<open>pid_t\<close> give another number: \<open>bg 4294967308\<close> resumes the job of process 12, and
  in \<open>bg %+1\<close> no digit follows the \<open>%\<close>, yet job 1 is resumed.
\<close>

theorem numeric_prefix_counterexample:
  "numeric_prefix (argument bg_big) = 4294967308 \<and>
   kills (new_events st12 (state_of (eval PARSELINE_FG bg_big ''bg 4294967308'' [] st12)))
     = [(- 12, SIGCONT)] \<and>
   jstate (jobs (state_of (eval PARSELINE_FG bg_big ''bg 4294967308'' [] st12)) ! 0) = BG \<and>
   takeWhile isdigit (tl (argument bg_plus1)) = [] \<and>
   kills (new_events st12 (state_of (eval PARSELINE_FG bg_plus1 ''bg %+1'' [] st12)))
     = [(- 12, SIGCONT)] \<and>
   jstate (jobs (state_of (eval PARSELINE_FG bg_plus1 ''bg %+1'' [] st12)) ! 0) = BG"
proof -
  have a: "argc bg_big \<noteq> 1" "good_shape (argument bg_big)"
    "lookup_arg (argument bg_big) (jobs st12) = Some (1, 12)" "builtin bg_big = BUILTIN_BG"
    "argument bg_big = ''4294967308''" "jobs st12 = job12_table"
    by (simp_all add: argument_def argc_def bg_big_def big_facts st12_def)
  have b: "argc bg_plus1 \<noteq> 1" "good_shape (argument bg_plus1)"
    "lookup_arg (argument bg_plus1) (jobs st12) = Some (1, 12)" "builtin bg_plus1 = BUILTIN_BG"
    "argument bg_plus1 = ''%+1''"
    by (simp_all add: argument_def argc_def bg_plus1_def big_facts st12_def)
  from bg_resolved [OF _ _ a(4) a(1-3), of PARSELINE_FG "''bg 4294967308''" "[]"]
    bg_resolved [OF _ _ b(4) b(1-3), of PARSELINE_FG "''bg %+1''" "[]"]
  show ?thesis
    by (auto simp add: a(5,6) b(5) arg_facts big_facts)
qed

text \<open>
  C10, amended. For \<open>bg\<close> and \<open>fg\<close> with an argument, the shape check inspects only the
  first character. An argument beginning with a digit is accepted, and the process id is
  its longest leading run of digits as C converts it (clamped to \<open>long\<close> by \<open>strtol\<close>, then
  cut to the 32-bit \<open>pid_t\<close>), which is that number when it is below \<open>2^31\<close>. An argument
  beginning with \<open>%\<close> is accepted, and the job id is what \<open>strtol\<close> reads after the \<open>%\<close>
  (white space and a sign are read too), converted likewise, which is the leading run of
  digits there when neither white space nor a sign follows the \<open>%\<close> and the number is
  below \<open>2^31\<close>. In both cases \<open>eval\<close> never prints the shape error: it prints
  \<open><arg>: No such job\<close> and changes nothing when there is no such job; otherwise \<open>bg\<close>
  prints the job line, sends SIGCONT to the negated process id and sets the job to \<open>BG\<close>,
  and \<open>fg\<close> sends SIGCONT, sets the job to \<open>FG\<close> and waits. So \<open>12abc\<close> is process id 12.
\<close>

theorem first_character_decides_shape:
  assumes "parse_result \<noteq> PARSELINE_ERROR" and "parse_result \<noteq> PARSELINE_EMPTY"
    and "builtin tok = BUILTIN_BG \<or> builtin tok = BUILTIN_FG"
    and "1 < argc tok"
    and "(isdigit (first_char (argument tok)) \<and>
            pid = to_int (min LONG_MAX (numeric_prefix (argument tok))) \<and>
            jid = job_from_pid pid (jobs s)) \<or>
         (first_char (argument tok) = CHR ''%'' \<and>
            jid = to_int (strtol (tl (argument tok))) \<and>
            pid = job_get_pid jid (jobs s))"
  shows
   "(\<not> job_exists jid (jobs s) \<longrightarrow>
       (\<exists>s'. eval parse_result tok cmdline as s = Returned s' \<and>
          prints (new_events s s') = [argument tok @ '': No such job'' @ nl] \<and>
          jobs s' = jobs s \<and> kills (new_events s s') = [])) \<and>
    (job_exists jid (jobs s) \<and> builtin tok = BUILTIN_BG \<longrightarrow>
       (\<exists>s'. eval parse_result tok cmdline as s = Returned s' \<and>
          prints (new_events s s') = [''['' @ show_int jid @ ''] ('' @ show_int pid @ '') ''
                          @ job_get_cmdline jid (jobs s) @ nl] \<and>
          kills (new_events s s') = [(- pid, SIGCONT)] \<and>
          jobs s' = job_set_state jid BG (jobs s))) \<and>
    (job_exists jid (jobs s) \<and> builtin tok = BUILTIN_FG \<longrightarrow>
       (\<exists>s1. eval parse_result tok cmdline as s = wait_then_restore pid (mask s) as s1 \<and>
          prints (new_events s s1) = [] \<and>
          kills (new_events s s1) = [(- pid, SIGCONT)] \<and>
          jobs s1 = job_set_state jid FG (jobs s))) \<and>
    (numeric_prefix (argument tok) < 2 ^ 31 \<longrightarrow>
       to_int (min LONG_MAX (numeric_prefix (argument tok))) = numeric_prefix (argument tok)) \<and>
    (plain (tl (argument tok)) \<and> numeric_prefix (tl (argument tok)) < 2 ^ 31 \<longrightarrow>
       to_int (strtol (tl (argument tok))) = numeric_prefix (tl (argument tok)))"
proof -
  have a1: "argc tok \<noteq> 1" using assms(4) by simp
  have gs: "good_shape (argument tok)" using assms(5) by (auto simp add: good_shape_def)
  have lk: "lookup_arg (argument tok) (jobs s)
      = (if job_exists jid (jobs s) then Some (jid, pid) else None)"
    using assms(5) lookup_arg_digit [of "argument tok" "jobs s"]
      lookup_arg_percent [of "argument tok" "jobs s"] by auto
  have n1: "numeric_prefix (argument tok) < 2 ^ 31 \<longrightarrow>
       to_int (min LONG_MAX (numeric_prefix (argument tok))) = numeric_prefix (argument tok)"
    using numeric_prefix_nonneg to_int_small by blast
  have n2: "plain (tl (argument tok)) \<and> numeric_prefix (tl (argument tok)) < 2 ^ 31 \<longrightarrow>
       to_int (strtol (tl (argument tok))) = numeric_prefix (tl (argument tok))"
    using numeric_prefix_nonneg to_int_small strtol_plain by metis
  have c1: "\<exists>s'. eval parse_result tok cmdline as s = Returned s' \<and>
          prints (new_events s s') = [argument tok @ '': No such job'' @ nl] \<and>
          jobs s' = jobs s \<and> kills (new_events s s') = []"
    if "\<not> job_exists jid (jobs s)"
    using bg_fg_not_found [OF assms(1-3) a1 gs, where cmdline = cmdline and as = as] lk that
    by auto
  have c2: "\<exists>s'. eval parse_result tok cmdline as s = Returned s' \<and>
          prints (new_events s s') = [''['' @ show_int jid @ ''] ('' @ show_int pid @ '') ''
                          @ job_get_cmdline jid (jobs s) @ nl] \<and>
          kills (new_events s s') = [(- pid, SIGCONT)] \<and>
          jobs s' = job_set_state jid BG (jobs s)"
    if "job_exists jid (jobs s)" "builtin tok = BUILTIN_BG"
  proof -
    have "lookup_arg (argument tok) (jobs s) = Some (jid, pid)" using lk that(1) by simp
    from bg_resolved [OF assms(1,2) that(2) a1 gs this, where cmdline = cmdline and as = as]
    show ?thesis by blast
  qed
  have c3: "\<exists>s1. eval parse_result tok cmdline as s = wait_then_restore pid (mask s) as s1 \<and>
          prints (new_events s s1) = [] \<and>
          kills (new_events s s1) = [(- pid, SIGCONT)] \<and>
          jobs s1 = job_set_state jid FG (jobs s)"
    if "job_exists jid (jobs s)" "builtin tok = BUILTIN_FG"
  proof -
    have "lookup_arg (argument tok) (jobs s) = Some (jid, pid)" using lk that(1) by simp
    from fg_resolved [OF assms(1,2) that(2) a1 gs this, where cmdline = cmdline and as = as]
    show ?thesis by blast
  qed
  show ?thesis using c1 c2 c3 n1 n2 by blast
qed

theorem first_character_decides_shape_witness:
  "(\<exists>s'. eval PARSELINE_FG bg_12abc ''bg 12abc'' [] st12 = Returned s' \<and>
      prints (new_events st12 s') = [''[1] (12) /bin/sleep 5'' @ nl] \<and>
      kills (new_events st12 s') = [(- 12, 18)] \<and>
      jobs s' = job_set_state 1 BG job12_table) \<and>
   (\<exists>s1. eval PARSELINE_FG fg_12abc ''fg 12abc'' [] st12 = wait_then_restore 12 0 [] s1 \<and>
      prints (new_events st12 s1) = [] \<and>
      kills (new_events st12 s1) = [(- 12, 18)] \<and>
      jobs s1 = job_set_state 1 FG job12_table) \<and>
   (\<exists>s'. eval PARSELINE_FG bg_pct7x ''bg %1x'' [] st12 = Returned s' \<and>
      prints (new_events st12 s') = [''[1] (12) /bin/sleep 5'' @ nl] \<and>
      kills (new_events st12 s') = [(- 12, 18)] \<and>
      jobs s' = job_set_state 1 BG job12_table) \<and>
   (\<exists>s'. eval PARSELINE_FG bg_99 ''bg 99x'' [] st12 = Returned s' \<and>
      prints (new_events st12 s') = [''99x: No such job'' @ nl] \<and>
      jobs s' = job12_table \<and>
      kills (new_events st12 s') = [])"
proof -
  have a: "argument bg_12abc = ''12abc''" "argc bg_12abc = 2" "builtin bg_12abc = BUILTIN_BG"
    "argument fg_12abc = ''12abc''" "argc fg_12abc = 2" "builtin fg_12abc = BUILTIN_FG"
    "argument bg_pct7x = ''%1x''" "argc bg_pct7x = 2" "builtin bg_pct7x = BUILTIN_BG"
    "argument bg_99 = ''99x''" "argc bg_99 = 2" "builtin bg_99 = BUILTIN_BG"
    "jobs st12 = job12_table" "mask st12 = 0"
    by (simp_all add: argument_def argc_def bg_12abc_def fg_12abc_def bg_pct7x_def bg_99_def
        st12_def st0_def)
  have w1: "\<exists>s'. eval PARSELINE_FG bg_12abc ''bg 12abc'' [] st12 = Returned s' \<and>
      prints (new_events st12 s') = [''[1] (12) /bin/sleep 5'' @ nl] \<and>
      kills (new_events st12 s') = [(- 12, 18)] \<and>
      jobs s' = job_set_state 1 BG job12_table"
    using first_character_decides_shape [where parse_result = PARSELINE_FG and tok = bg_12abc and cmdline = "''bg 12abc''"
        and as = "[]" and s = st12 and pid = 12 and jid = 1]
    by (simp add: a witness_facts SIGCONT_def)
  have w2: "\<exists>s1. eval PARSELINE_FG fg_12abc ''fg 12abc'' [] st12 = wait_then_restore 12 0 [] s1 \<and>
      prints (new_events st12 s1) = [] \<and>
      kills (new_events st12 s1) = [(- 12, 18)] \<and>
      jobs s1 = job_set_state 1 FG job12_table"
    using first_character_decides_shape [where parse_result = PARSELINE_FG and tok = fg_12abc and cmdline = "''fg 12abc''"
        and as = "[]" and s = st12 and pid = 12 and jid = 1]
    by (simp add: a witness_facts SIGCONT_def)
  have w3: "\<exists>s'. eval PARSELINE_FG bg_pct7x ''bg %1x'' [] st12 = Returned s' \<and>
      prints (new_events st12 s') = [''[1] (12) /bin/sleep 5'' @ nl] \<and>
      kills (new_events st12 s') = [(- 12, 18)] \<and>
      jobs s' = job_set_state 1 BG job12_table"
    using first_character_decides_shape [where parse_result = PARSELINE_FG and tok = bg_pct7x and cmdline = "''bg %1x''"
        and as = "[]" and s = st12 and pid = 12 and jid = 1]
    by (simp add: a witness_facts SIGCONT_def)
  have w4: "\<exists>s'. eval PARSELINE_FG bg_99 ''bg 99x'' [] st12 = Returned s' \<and>
      prints (new_events st12 s') = [''99x: No such job'' @ nl] \<and>
      jobs s' = job12_table \<and>
      kills (new_events st12 s') = []"
    using first_character_decides_shape [where parse_result = PARSELINE_FG and tok = bg_99 and cmdline = "''bg 99x''"
        and as = "[]" and s = st12 and pid = 99 and jid = 0]
    by (simp add: a witness_facts)
  show ?thesis using w1 w2 w3 w4 by blast
qed

subsection \<open>C2: the foreground wait\<close>

text \<open>
  C2 as stated (the wait entered after launching a foreground command returns only after
  that process has stopped, exited or been terminated) fails when the job list is full:
  \<open>add_job\<close> registers nothing, its result is not looked at, \<open>fg_job()\<close> is 0 and the
  loop is left at once, without a single \<open>sigsuspend\<close> and while process 100 is still
  running.
\<close>

theorem full_table_counterexample:
  "free_slot (jobs full_st) = None \<and>
   is_returned (eval PARSELINE_FG sleep5 ''/bin/sleep 5'' [] full_st) \<and>
   suspends (new_events full_st
      (state_of (eval PARSELINE_FG sleep5 ''/bin/sleep 5'' [] full_st))) = [] \<and>
   \<not> stopped_or_ended (fork_ret full_st) (new_events full_st
      (state_of (eval PARSELINE_FG sleep5 ''/bin/sleep 5'' [] full_st)))"
proof -
  have "fork_ret full_st = 100" by (simp add: full_st_def st0_def)
  then show ?thesis using run_facts(1,2,3,5) by simp
qed

text \<open>
  C2, amended. When \<open>eval\<close> is entered with no job in the foreground (as every returning
  call leaves it, \<open>eval_keeps_no_foreground\<close>), the wait after launching a foreground command whose job could be
  registered (the job list had a free slot), and the wait after an \<open>fg\<close> whose argument
  resolves to a job, loop while \<open>fg_job()\<close> is nonzero and is the job of that process,
  suspending with \<open>sigsuspend(&prev_all)\<close> on each turn. If \<open>eval\<close> returns, then it has
  suspended at least once, always with the mask it was entered with, a handler run during
  a suspension has reaped a stop, a termination by signal or an exit of that process, the
  original mask is restored and no job is in the foreground.
\<close>

theorem foreground_wait_returns_after_change:
  assumes "fg_job (jobs s) = 0"
    and "eval parse_result tok cmdline as s = Returned s'"
    and "(builtin tok = BUILTIN_NONE \<and> parse_result = PARSELINE_FG \<and> fork_ret s = pid \<and>
          pid \<noteq> 0 \<and> free_slot (jobs s) \<noteq> None) \<or>
         (builtin tok = BUILTIN_FG \<and> parse_result \<noteq> PARSELINE_ERROR \<and>
          parse_result \<noteq> PARSELINE_EMPTY \<and> argc tok \<noteq> 1 \<and> good_shape (argument tok) \<and>
          lookup_arg (argument tok) (jobs s) = Some (jid, pid))"
  shows "stopped_or_ended pid (new_events s s') \<and> suspends (new_events s s') \<noteq> [] \<and>
         set (suspends (new_events s s')) = {mask s} \<and> mask s' = mask s \<and>
         fg_job (jobs s') = 0"
proof -
  have nf: "\<not> has_fg (jobs s)" using assms(1) by (simp add: fg_job_zero_iff)
  from assms(3) show ?thesis
  proof
    assume a: "builtin tok = BUILTIN_NONE \<and> parse_result = PARSELINE_FG \<and> fork_ret s = pid \<and>
          pid \<noteq> 0 \<and> free_slot (jobs s) \<noteq> None"
    let ?s3 = "do_add_job pid FG cmdline (emit (Fork pid) (sigprocmask SIG_BLOCK mask_all s))"
    have ev: "eval parse_result tok cmdline as s = wait_then_restore pid (mask s) as ?s3"
      using a by (simp add: eval_def external_def parent_def Let_def prim_defs)
    have j: "jobs ?s3 = snd (add_job pid FG cmdline (jobs s))" by (simp add: prim_defs)
    have f: "fg_only pid (jobs ?s3)" "has_fg (jobs ?s3)"
      using add_job_fg [OF _ nf] a by (simp_all add: j)
    have e: "extends s ?s3" "suspends (new_events s ?s3) = []"
      by (simp_all add: prim_defs extends_def new_events_def)
    from wait_then_restore_returns [OF assms(2) [unfolded ev] f e] show ?thesis by simp
  next
    assume a: "builtin tok = BUILTIN_FG \<and> parse_result \<noteq> PARSELINE_ERROR \<and>
          parse_result \<noteq> PARSELINE_EMPTY \<and> argc tok \<noteq> 1 \<and> good_shape (argument tok) \<and>
          lookup_arg (argument tok) (jobs s) = Some (jid, pid)"
    then have a': "argc tok \<noteq> 1" "good_shape (argument tok)"
      "lookup_arg (argument tok) (jobs s) = Some (jid, pid)" by simp_all
    from resolve_found [OF a', where name = "''fg''" and prev = "mask s"]
    obtain s1 where s1:
      "resolve ''fg'' tok (mask s) (sigprocmask SIG_BLOCK mask_all s) = Inr (jid, pid, s1)"
      and p: "extends s s1" "jobs s1 = jobs s" "mask s1 = mask_all"
        "prints (new_events s s1) = []" "kills (new_events s s1) = []"
        "suspends (new_events s s1) = []"
      by blast
    let ?s4 = "do_job_set_state jid FG (kill (- pid) SIGCONT s1)"
    have ev: "eval parse_result tok cmdline as s = wait_then_restore pid (mask s) as ?s4"
      using a s1 by (simp add: eval_def builtin_fg_def Let_def)
    note fgf = fg_found [OF p, where jid = jid and pid = pid]
    note lp = lookup_arg_pid [OF a'(3)]
    have f: "fg_only pid (jobs ?s4)" "has_fg (jobs ?s4)"
      using job_set_state_fg [OF lp nf] by (simp_all add: fgf(3))
    from wait_then_restore_returns [OF assms(2) [unfolded ev] f fgf(5) fgf(2)]
    show ?thesis by simp
  qed
qed

theorem foreground_wait_returns_after_change_witness:
  "stopped_or_ended 100 (new_events st0 (state_of (eval PARSELINE_FG sleep5 ''/bin/sleep 5''
      [(SIGINT, []), (SIGCHLD, [(100, WSignaled 2)])] st0))) \<and>
   set (suspends (new_events st0 (state_of (eval PARSELINE_FG sleep5 ''/bin/sleep 5''
      [(SIGINT, []), (SIGCHLD, [(100, WSignaled 2)])] st0)))) = {0} \<and>
   mask (state_of (eval PARSELINE_FG sleep5 ''/bin/sleep 5''
      [(SIGINT, []), (SIGCHLD, [(100, WSignaled 2)])] st0)) = 0 \<and>
   stopped_or_ended 12 (new_events st12 (state_of (eval PARSELINE_FG fg_job1 ''fg %1''
      [(SIGCHLD, [(12, WExited 0)])] st12))) \<and>
   fg_job (jobs (state_of (eval PARSELINE_FG fg_job1 ''fg %1''
      [(SIGCHLD, [(12, WExited 0)])] st12))) = 0"
proof -
  have a: "builtin sleep5 = BUILTIN_NONE" "fork_ret st0 = 100" "mask st0 = 0"
    "builtin fg_job1 = BUILTIN_FG" "argc fg_job1 = 2" "argument fg_job1 = ''%1''"
    "jobs st12 = job12_table" "mask st12 = 0"
    by (simp_all add: sleep5_def st0_def st12_def fg_job1_def argc_def argument_def)
  show ?thesis
    using foreground_wait_returns_after_change [OF run_facts(10) is_returned_state [OF run_facts(7)], where pid = 100 and jid = 0]
      foreground_wait_returns_after_change [OF run_facts(11) is_returned_state [OF run_facts(8)], where pid = 12 and jid = 1]
    by (simp add: a run_facts(9) arg_facts)
qed

subsection \<open>C1: the job is registered before signals are unblocked\<close>

text \<open>
  C1 as stated (for every external command the parent registers the job, in state \<open>FG\<close>
  or \<open>BG\<close>, before signals are unblocked) fails when the job list is full: \<open>add_job\<close> is
  called with all signals blocked but registers nothing, and its result is not looked
  at. After \<open>eval\<close> no job has process id 100, for the foreground command no job is in the
  foreground, and the background announcement carries job id 0.
\<close>

theorem registration_counterexample:
  "builtin sleep5 = BUILTIN_NONE \<and> fork_ret full_st = 100 \<and> free_slot (jobs full_st) = None \<and>
   job_from_pid 100
     (jobs (state_of (eval PARSELINE_FG sleep5 ''/bin/sleep 5'' [] full_st))) = 0 \<and>
   fg_job (jobs (state_of (eval PARSELINE_FG sleep5 ''/bin/sleep 5'' [] full_st))) = 0 \<and>
   job_from_pid 100
     (jobs (state_of (eval PARSELINE_BG sleep5 ''/bin/sleep 5 &'' [] full_st))) = 0 \<and>
   prints (new_events full_st
     (state_of (eval PARSELINE_BG sleep5 ''/bin/sleep 5 &'' [] full_st)))
     = [''[0] (100) /bin/sleep 5 &'' @ nl]"
proof -
  have "builtin sleep5 = BUILTIN_NONE" "fork_ret full_st = 100"
    by (simp_all add: sleep5_def full_st_def st0_def)
  then show ?thesis using full_facts run_facts(5) by simp
qed

text \<open>
  C1, amended. For an external command, in the parent (\<open>fork\<close> returned a nonzero process
  id): the first call \<open>eval\<close> makes is \<open>sigprocmask(SIG_BLOCK, all)\<close>, made under the mask
  of the caller, and the second is \<open>fork\<close>, made with all signals blocked. For a
  foreground command the third call is \<open>add_job(pid, FG, cmdline)\<close>, still with all
  signals blocked, and only then does the wait begin. For a background command the calls
  are, all with every signal blocked: a second \<open>sigprocmask(SIG_BLOCK, all)\<close>,
  \<open>add_job(pid, BG, cmdline)\<close>, \<open>job_from_pid\<close> and the
  \<open>sigprocmask(SIG_SETMASK, prev)\<close> that unblocks; the announcement is printed after it.
  No call between \<open>fork\<close> and \<open>add_job\<close> runs with a signal unblocked. When the job list
  has a free slot, \<open>add_job\<close> registers the job in the lowest one, in state \<open>FG\<close> or \<open>BG\<close>;
  when it is full the job list stays as it was.
\<close>

theorem job_registered_while_blocked:
  assumes "builtin tok = BUILTIN_NONE" and "fork_ret s = pid" and "pid \<noteq> 0"
  shows
   "(parse_result = PARSELINE_FG \<longrightarrow>
       take 3 (new_events s (state_of (eval parse_result tok cmdline as s)))
         = [(Sigprocmask SIG_BLOCK mask_all, mask s), (Fork pid, mask_all),
            (AddJob pid FG cmdline, mask_all)] \<and>
       (\<exists>s3. eval parse_result tok cmdline as s = wait_then_restore pid (mask s) as s3 \<and>
          new_events s s3
            = [(Sigprocmask SIG_BLOCK mask_all, mask s), (Fork pid, mask_all),
               (AddJob pid FG cmdline, mask_all)] \<and>
          mask s3 = mask_all \<and>
          jobs s3 = snd (add_job pid FG cmdline (jobs s)) \<and>
          (\<forall>i. free_slot (jobs s) = Some i \<longrightarrow>
             jobs s3 ! i = \<lparr>jpid = pid, jstate = FG, jcmdline = cmdline\<rparr>) \<and>
          (free_slot (jobs s) = None \<longrightarrow> jobs s3 = jobs s))) \<and>
    (parse_result = PARSELINE_BG \<longrightarrow>
       (\<exists>s'. eval parse_result tok cmdline as s = Returned s' \<and>
          new_events s s'
            = [(Sigprocmask SIG_BLOCK mask_all, mask s), (Fork pid, mask_all),
               (Sigprocmask SIG_BLOCK mask_all, mask_all), (AddJob pid BG cmdline, mask_all),
               (JobFromPid pid, mask_all), (Sigprocmask SIG_SETMASK (mask s), mask_all),
               (Print (''['' @ show_int (job_from_pid pid (jobs s')) @ ''] ('' @ show_int pid
                  @ '') '' @ cmdline @ nl), mask s)] \<and>
          jobs s' = snd (add_job pid BG cmdline (jobs s)) \<and>
          (\<forall>i. free_slot (jobs s) = Some i \<longrightarrow>
             jobs s' ! i = \<lparr>jpid = pid, jstate = BG, jcmdline = cmdline\<rparr>) \<and>
          (free_slot (jobs s) = None \<longrightarrow> jobs s' = jobs s)))"
proof (intro conjI impI)
  assume fg: "parse_result = PARSELINE_FG"
  let ?s3 = "do_add_job pid FG cmdline (emit (Fork pid) (sigprocmask SIG_BLOCK mask_all s))"
  have ev: "eval parse_result tok cmdline as s = wait_then_restore pid (mask s) as ?s3"
    using assms fg by (simp add: eval_def external_def parent_def Let_def prim_defs)
  have t3: "trace ?s3 = trace s @ [(Sigprocmask SIG_BLOCK mask_all, mask s), (Fork pid, mask_all),
            (AddJob pid FG cmdline, mask_all)]"
    by (simp add: prim_defs)
  have n3: "new_events s ?s3 = [(Sigprocmask SIG_BLOCK mask_all, mask s), (Fork pid, mask_all),
            (AddJob pid FG cmdline, mask_all)]"
    by (simp add: new_events_def t3)
  have slot: "\<forall>i. free_slot (jobs s) = Some i \<longrightarrow>
             jobs ?s3 ! i = \<lparr>jpid = pid, jstate = FG, jcmdline = cmdline\<rparr>"
    using free_slot_nth by (auto simp add: prim_defs add_job_def)
  have full: "free_slot (jobs s) = None \<longrightarrow> jobs ?s3 = jobs s"
    by (simp add: prim_defs add_job_def)
  from wait_then_restore_extends [of ?s3 pid "mask s" as]
  obtain rest where "trace (state_of (eval parse_result tok cmdline as s)) = trace ?s3 @ rest"
    by (auto simp add: ev extends_append)
  then show "take 3 (new_events s (state_of (eval parse_result tok cmdline as s)))
         = [(Sigprocmask SIG_BLOCK mask_all, mask s), (Fork pid, mask_all),
            (AddJob pid FG cmdline, mask_all)]"
    by (simp add: new_events_def t3)
  show "\<exists>s3. eval parse_result tok cmdline as s = wait_then_restore pid (mask s) as s3 \<and>
          new_events s s3
            = [(Sigprocmask SIG_BLOCK mask_all, mask s), (Fork pid, mask_all),
               (AddJob pid FG cmdline, mask_all)] \<and>
          mask s3 = mask_all \<and>
          jobs s3 = snd (add_job pid FG cmdline (jobs s)) \<and>
          (\<forall>i. free_slot (jobs s) = Some i \<longrightarrow>
             jobs s3 ! i = \<lparr>jpid = pid, jstate = FG, jcmdline = cmdline\<rparr>) \<and>
          (free_slot (jobs s) = None \<longrightarrow> jobs s3 = jobs s)"
    using ev n3 slot full by (intro exI [of _ ?s3]) (simp add: prim_defs)
next
  assume bg: "parse_result = PARSELINE_BG"
  have slot: "\<forall>i. free_slot (jobs s) = Some i \<longrightarrow>
       snd (add_job pid BG cmdline (jobs s)) ! i = \<lparr>jpid = pid, jstate = BG, jcmdline = cmdline\<rparr>"
    using free_slot_nth by (auto simp add: add_job_def)
  have full: "free_slot (jobs s) = None \<longrightarrow> snd (add_job pid BG cmdline (jobs s)) = jobs s"
    by (simp add: add_job_def)
  show "\<exists>s'. eval parse_result tok cmdline as s = Returned s' \<and>
          new_events s s'
            = [(Sigprocmask SIG_BLOCK mask_all, mask s), (Fork pid, mask_all),
               (Sigprocmask SIG_BLOCK mask_all, mask_all), (AddJob pid BG cmdline, mask_all),
               (JobFromPid pid, mask_all), (Sigprocmask SIG_SETMASK (mask s), mask_all),
               (Print (''['' @ show_int (job_from_pid pid (jobs s')) @ ''] ('' @ show_int pid
                  @ '') '' @ cmdline @ nl), mask s)] \<and>
          jobs s' = snd (add_job pid BG cmdline (jobs s)) \<and>
          (\<forall>i. free_slot (jobs s) = Some i \<longrightarrow>
             jobs s' ! i = \<lparr>jpid = pid, jstate = BG, jcmdline = cmdline\<rparr>) \<and>
          (free_slot (jobs s) = None \<longrightarrow> jobs s' = jobs s)"
    using assms bg slot full
    by (simp add: eval_def external_def parent_def Let_def prim_defs new_events_def)
qed

theorem job_registered_while_blocked_witness:
  "take 3 (new_events st0 (state_of (eval PARSELINE_FG sleep5 ''/bin/sleep 5''
       [(SIGCHLD, [(100, WExited 0)])] st0)))
     = [(Sigprocmask SIG_BLOCK mask_all, 0), (Fork 100, mask_all),
        (AddJob 100 FG ''/bin/sleep 5'', mask_all)] \<and>
   (\<exists>s'. eval PARSELINE_BG sleep5 ''/bin/sleep 5 &'' [] st0 = Returned s' \<and>
      take 4 (new_events st0 s')
        = [(Sigprocmask SIG_BLOCK mask_all, 0), (Fork 100, mask_all),
           (Sigprocmask SIG_BLOCK mask_all, mask_all),
           (AddJob 100 BG ''/bin/sleep 5 &'', mask_all)] \<and>
      jobs s' ! 0 = \<lparr>jpid = 100, jstate = BG, jcmdline = ''/bin/sleep 5 &''\<rparr>)"
proof -
  have a: "builtin sleep5 = BUILTIN_NONE" "fork_ret st0 = 100" "mask st0 = 0" "(100::int) \<noteq> 0"
    by (simp_all add: sleep5_def st0_def)
  show ?thesis
    using job_registered_while_blocked [OF a(1,2,4), where parse_result = PARSELINE_FG and cmdline = "''/bin/sleep 5''"
        and as = "[(SIGCHLD, [(100, WExited 0)])]"]
      job_registered_while_blocked [OF a(1,2,4), where parse_result = PARSELINE_BG and cmdline = "''/bin/sleep 5 &''"
        and as = "[]"]
    by (auto simp add: a(3) st0_slot)
qed

end
